theory Spec2Isabelle
  imports Complex_Main "HOL-Library.Multiset"
begin

section \<open>Text preprocessor (apps/search/services/preprocessor.py)\<close>

text \<open>
  Text is a list of characters. The model covers ASCII text: a character above 127 is
  treated as an ordinary non-blank, non-alphanumeric character, which the punctuation pass
  turns into a blank.

  The tokenizer, the stopword list and the Porter stemmer come from the NLTK and
  scikit-learn libraries, not from this repository, so they are parameters of the model.
  \<open>word_tokenize\<close> returns \<open>None\<close> where the library call raises; the source then falls
  back to \<open>text.split()\<close>.
\<close>

record nltk =
  word_tokenize :: "string \<Rightarrow> string list option"
  stop_words :: "string set"
  stem :: "string \<Rightarrow> string"

definition isspace :: "char \<Rightarrow> bool" where
  \<comment> \<open>the class \<open>\s\<close> on ASCII: tab, newline, vertical tab, form feed, carriage return,
      the separators 28 to 31 and the blank\<close>
  "isspace c = (let n = (of_char c :: nat) in (9 \<le> n \<and> n \<le> 13) \<or> (28 \<le> n \<and> n \<le> 32))"

definition lower_char :: "char \<Rightarrow> char" where
  "lower_char c =
     (let n = (of_char c :: nat) in if 65 \<le> n \<and> n \<le> 90 then char_of (n + 32) else c)"

definition lower :: "string \<Rightarrow> string" where
  "lower text = map lower_char text"

definition skip_run :: "string \<Rightarrow> string" where
  \<comment> \<open>the text left after a greedy \<open>\S*\<close>\<close>
  "skip_run s = dropWhile (\<lambda>c. \<not> isspace c) s"

definition match_lit :: "string \<Rightarrow> string \<Rightarrow> string option" where
  \<comment> \<open>\<open>lit\S+\<close> matched at the head of \<open>s\<close>: the text after the match\<close>
  "match_lit lit s =
     (if take (length lit) s = lit then
        (case drop (length lit) s of
           [] \<Rightarrow> None
         | c # cs \<Rightarrow> if isspace c then None else Some (skip_run cs))
      else None)"

definition match_url :: "string \<Rightarrow> string option" where
  \<comment> \<open>\<open>https?://\S+|www\.\S+\<close> matched at the head of \<open>s\<close>\<close>
  "match_url s =
     (case match_lit ''https://'' s of
        Some r \<Rightarrow> Some r
      | None \<Rightarrow>
          (case match_lit ''http://'' s of
             Some r \<Rightarrow> Some r
           | None \<Rightarrow> match_lit ''www.'' s))"

definition match_email :: "string \<Rightarrow> string option" where
  \<comment> \<open>\<open>\S+@\S+\<close> matched at the head of \<open>s\<close>: the run of non-blank characters that starts
      there must hold an \<open>@\<close> that is neither its first nor its last character; the match
      is then the whole run\<close>
  "match_email s =
     (if CHR ''@'' \<in> set (butlast (tl (takeWhile (\<lambda>c. \<not> isspace c) s)))
      then Some (skip_run s) else None)"

lemma length_skip_run: "length (skip_run s) \<le> length s"
  by (simp add: skip_run_def length_dropWhile_le)

lemma match_lit_shorter: "match_lit lit s = Some r \<Longrightarrow> length r < length s"
proof -
  assume m: "match_lit lit s = Some r"
  then obtain c cs where d: "drop (length lit) s = c # cs" and r: "r = skip_run cs"
    by (auto simp: match_lit_def split: if_splits list.splits)
  have "length r \<le> length cs" using r length_skip_run by simp
  moreover have "length (c # cs) \<le> length s" using d by (metis length_drop diff_le_self)
  ultimately show ?thesis by simp
qed

lemma match_url_shorter: "match_url s = Some r \<Longrightarrow> length r < length s"
  by (auto simp: match_url_def split: option.splits dest: match_lit_shorter)

lemma match_email_shorter: "match_email s = Some r \<Longrightarrow> length r < length s"
proof -
  assume m: "match_email s = Some r"
  then have at: "CHR ''@'' \<in> set (butlast (tl (takeWhile (\<lambda>c. \<not> isspace c) s)))"
    and r: "r = skip_run s"
    by (auto simp: match_email_def split: if_splits)
  from at have "takeWhile (\<lambda>c. \<not> isspace c) s \<noteq> []" by auto
  then obtain c cs where s: "s = c # cs" and c: "\<not> isspace c"
    by (cases s) (auto split: if_splits)
  then have "r = skip_run cs" using r by (simp add: skip_run_def)
  then show ?thesis using s length_skip_run [of cs] by simp
qed

function remove_urls :: "string \<Rightarrow> string" where
  \<comment> \<open>\<open>re.sub(r'https?://\S+|www\.\S+', '', text)\<close>\<close>
  "remove_urls [] = []"
| "remove_urls (c # cs) =
     (case match_url (c # cs) of
        Some rest \<Rightarrow> remove_urls rest
      | None \<Rightarrow> c # remove_urls cs)"
  by pat_completeness auto
termination
  by (relation "measure length") (auto dest: match_url_shorter)

function remove_emails :: "string \<Rightarrow> string" where
  \<comment> \<open>\<open>re.sub(r'\S+@\S+', '', text)\<close>\<close>
  "remove_emails [] = []"
| "remove_emails (c # cs) =
     (case match_email (c # cs) of
        Some rest \<Rightarrow> remove_emails rest
      | None \<Rightarrow> c # remove_emails cs)"
  by pat_completeness auto
termination
  by (relation "measure length") (auto dest: match_email_shorter)

definition is_lower_alnum :: "char \<Rightarrow> bool" where
  "is_lower_alnum c =
     (let n = (of_char c :: nat) in (97 \<le> n \<and> n \<le> 122) \<or> (48 \<le> n \<and> n \<le> 57))"

definition strip_punct :: "string \<Rightarrow> string" where
  \<comment> \<open>\<open>re.sub(r'[^a-z0-9\s]', ' ', text)\<close>\<close>
  "strip_punct text = map (\<lambda>c. if is_lower_alnum c \<or> isspace c then c else CHR '' '') text"

function collapse_ws :: "string \<Rightarrow> string" where
  \<comment> \<open>\<open>re.sub(r'\s+', ' ', text)\<close>\<close>
  "collapse_ws [] = []"
| "collapse_ws (c # cs) =
     (if isspace c then CHR '' '' # collapse_ws (dropWhile isspace cs)
      else c # collapse_ws cs)"
  by pat_completeness auto
termination
  by (relation "measure length") (auto simp: length_dropWhile_le less_Suc_eq_le)

definition strip :: "string \<Rightarrow> string" where
  \<comment> \<open>\<open>str.strip()\<close>\<close>
  "strip s = rev (dropWhile isspace (rev (dropWhile isspace s)))"

function split :: "string \<Rightarrow> string list" where
  \<comment> \<open>\<open>str.split()\<close>: the maximal runs of non-blank characters\<close>
  "split [] = []"
| "split (c # cs) =
     (if isspace c then split cs
      else takeWhile (\<lambda>c. \<not> isspace c) (c # cs) # split (skip_run cs))"
  by pat_completeness auto
termination
  by (relation "measure length") (auto simp: less_Suc_eq_le length_skip_run)

definition clean :: "string \<Rightarrow> string" where
  \<comment> \<open>lines 66 to 79 of \<open>preprocess\<close>\<close>
  "clean text = strip (collapse_ws (strip_punct (remove_emails (remove_urls (lower text)))))"

definition tokenize :: "nltk \<Rightarrow> string \<Rightarrow> string list" where
  \<comment> \<open>\<open>try: tokens = word_tokenize(text)  except Exception: tokens = text.split()\<close>\<close>
  "tokenize env text = (case word_tokenize env text of Some ts \<Rightarrow> ts | None \<Rightarrow> split text)"

definition isdigit :: "string \<Rightarrow> bool" where
  \<comment> \<open>\<open>str.isdigit()\<close>: not empty and every character a digit\<close>
  "isdigit s = (s \<noteq> [] \<and> list_all (\<lambda>c. 48 \<le> (of_char c :: nat) \<and> (of_char c :: nat) \<le> 57) s)"

fun filter_stem :: "nltk \<Rightarrow> string list \<Rightarrow> string list" where
  \<comment> \<open>the loop over \<open>tokens\<close> that fills \<open>processed_tokens\<close>\<close>
  "filter_stem env [] = []"
| "filter_stem env (token # tokens) =
     (if length token < 2 \<or> token \<in> stop_words env then filter_stem env tokens
      else if isdigit token then filter_stem env tokens
      else stem env token # filter_stem env tokens)"

definition preprocess :: "nltk \<Rightarrow> string \<Rightarrow> string list" where
  \<comment> \<open>\<open>preprocess_text(text, return_tokens=True)\<close>\<close>
  "preprocess env text =
     (if text = [] then [] else filter_stem env (tokenize env (clean text)))"

fun join :: "string list \<Rightarrow> string" where
  \<comment> \<open>\<open>' '.join(tokens)\<close>\<close>
  "join [] = []"
| "join [t] = t"
| "join (t # ts) = t @ '' '' @ join ts"

section \<open>Data model (apps/search/models.py)\<close>

text \<open>
  The two tables the index uses. A table is the list of its rows in the order in which the
  database returns them to a query. \<open>Publication\<close> rows come newest first
  (\<open>ordering = ['-created_at']\<close>). \<open>InvertedIndexEntry\<close> has no ordering and no query on
  it asks for one, so the order of the index rows is the database's choice: \<open>build_index\<close>
  lists the rows as it creates them, and whatever depends on their order is proved for
  every order. Floating-point scores are modelled as real numbers, \<open>math.log\<close> as the
  natural logarithm.
\<close>

record publication =
  pub_id :: int
  title :: string
  abstract :: string
  searchable_content :: string

record index_entry =
  entry_term :: string
  publication_id :: int
  tfidf_score :: real
  term_frequency :: nat

record database =
  publications :: "publication list"
  entries :: "index_entry list"


section \<open>Index builder (apps/search/services/indexer.py)\<close>

text \<open>
  A Python dictionary keeps its keys in insertion order, and the builder iterates over
  its dictionaries, so a dictionary is an association list with one pair per key.
\<close>

type_synonym 'k counter = "('k \<times> nat) list"

fun incr :: "'k \<Rightarrow> 'k counter \<Rightarrow> 'k counter" where
  \<comment> \<open>\<open>d[k] += 1\<close> on a \<open>defaultdict(int)\<close>\<close>
  "incr k [] = [(k, 1)]"
| "incr k ((k', n) # d) = (if k = k' then (k', n + 1) # d else (k', n) # incr k d)"

fun dict_set :: "'k \<Rightarrow> 'v \<Rightarrow> ('k \<times> 'v) list \<Rightarrow> ('k \<times> 'v) list" where
  \<comment> \<open>\<open>d[k] = v\<close>\<close>
  "dict_set k v [] = [(k, v)]"
| "dict_set k v ((k', v') # d) = (if k = k' then (k', v) # d else (k', v') # dict_set k v d)"

definition count_of :: "'k counter \<Rightarrow> 'k \<Rightarrow> nat" where
  \<comment> \<open>\<open>d[k]\<close> on a \<open>defaultdict(int)\<close>: 0 for a key that is not there\<close>
  "count_of d k = (case map_of d k of Some n \<Rightarrow> n | None \<Rightarrow> 0)"

record index_builder =
  documents :: "publication list"
  term_doc_freq :: "string counter"
  doc_term_freq :: "(int \<times> string counter) list"

definition new_builder :: index_builder where
  \<comment> \<open>\<open>IndexBuilder.__init__\<close>\<close>
  "new_builder = \<lparr>documents = [], term_doc_freq = [], doc_term_freq = []\<rparr>"

fun count_tokens :: "string list \<Rightarrow> string counter \<times> string counter
    \<Rightarrow> string counter \<times> string counter" where
  \<comment> \<open>\<open>for token in tokens: term_freq[token] += 1; self.term_doc_freq[token] += 1\<close>,
      on the pair \<open>(term_freq, self.term_doc_freq)\<close>\<close>
  "count_tokens [] s = s"
| "count_tokens (token # tokens) (term_freq, df) =
     count_tokens tokens (incr token term_freq, incr token df)"

definition content :: "publication \<Rightarrow> string" where
  \<comment> \<open>\<open>f"{pub.title} {pub.abstract}"\<close>\<close>
  "content pub = title pub @ '' '' @ abstract pub"

fun index_pubs :: "nltk \<Rightarrow> publication list
    \<Rightarrow> (int \<times> string counter) list \<times> string counter \<times> publication list
    \<Rightarrow> (int \<times> string counter) list \<times> string counter \<times> publication list" where
  \<comment> \<open>the first loop of \<open>build_index\<close>, on \<open>(doc_terms, self.term_doc_freq, saved rows)\<close>\<close>
  "index_pubs env [] s = s"
| "index_pubs env (pub # pubs) (doc_terms, df, saved) =
     (let tokens = preprocess env (content pub);
          (term_freq, df') = count_tokens tokens ([], df)
      in index_pubs env pubs
           (dict_set (pub_id pub) term_freq doc_terms, df',
            saved @ [pub\<lparr>searchable_content := join tokens\<rparr>]))"

definition idf :: "nat \<Rightarrow> nat \<Rightarrow> real" where
  \<comment> \<open>\<open>log(total_docs / doc_freq) if doc_freq > 0 else 0\<close>\<close>
  "idf total_docs doc_freq = (if doc_freq > 0 then ln (real total_docs / real doc_freq) else 0)"

definition make_entries :: "nat \<Rightarrow> string counter \<Rightarrow> (int \<times> string counter) list
    \<Rightarrow> index_entry list" where
  \<comment> \<open>the second loop of \<open>build_index\<close>; every term read from \<open>self.term_doc_freq\<close> was
      counted there by the first loop\<close>
  "make_entries total_docs df doc_terms =
     concat (map (\<lambda>(pid, term_freq).
        map (\<lambda>(t, freq).
          \<lparr>entry_term = t, publication_id = pid,
           tfidf_score = real freq * idf total_docs (count_of df t),
           term_frequency = freq\<rparr>) term_freq) doc_terms)"

datatype build_result =
    No_documents (entries_created: nat)
  | Success (documents_indexed: nat) (entries_created: nat) (unique_terms: nat)

definition build_index :: "nltk \<Rightarrow> index_builder \<Rightarrow> database
    \<Rightarrow> build_result \<times> index_builder \<times> database" where
  "build_index env self db =
     (let pubs = publications db; total_docs = length pubs in
      if total_docs = 0 then (No_documents 0, self, db)
      else
        let (doc_terms, df, saved) = index_pubs env pubs ([], term_doc_freq self, []);
            entries_to_create = make_entries total_docs df doc_terms
        in (Success total_docs (length entries_to_create) (length df),
            self\<lparr>term_doc_freq := df\<rparr>,
            \<lparr>publications = saved, entries = entries_to_create\<rparr>))"

datatype error = DatabaseError | KeyError

definition save_searchable_content :: "publication \<Rightarrow> string \<Rightarrow> publication list
    \<Rightarrow> publication list" where
  \<comment> \<open>\<open>publication.save(update_fields=['searchable_content'])\<close>: only that column of the
      row with the publication's key is written\<close>
  "save_searchable_content pub text rows =
     map (\<lambda>r. if pub_id r = pub_id pub then r\<lparr>searchable_content := text\<rparr> else r) rows"

definition doc_freq_of :: "index_entry list \<Rightarrow> string \<Rightarrow> nat" where
  \<comment> \<open>\<open>InvertedIndexEntry.objects.filter(term=term).values('publication').distinct().count() + 1\<close>\<close>
  "doc_freq_of rows t =
     length (remdups (map publication_id (filter (\<lambda>e. entry_term e = t) rows))) + 1"

definition update_index :: "nltk \<Rightarrow> database \<Rightarrow> publication \<Rightarrow> (error + nat) \<times> database" where
  \<comment> \<open>returns \<open>entries_created\<close>; saving a publication that has no row raises, after the
      publication's old postings have been deleted\<close>
  "update_index env db pub =
     (let kept = filter (\<lambda>e. publication_id e \<noteq> pub_id pub) (entries db);
          total_docs = length (publications db);
          tokens = preprocess env (content pub);
          term_freq = fold incr tokens []
      in if pub_id pub \<notin> pub_id ` set (publications db)
         then (Inl DatabaseError, db\<lparr>entries := kept\<rparr>)
         else
           let new_entries = map (\<lambda>(t, freq).
                 \<lparr>entry_term = t, publication_id = pub_id pub,
                  tfidf_score = real freq * idf total_docs (doc_freq_of kept t),
                  term_frequency = freq\<rparr>) term_freq
           in (Inr (length new_entries),
               \<lparr>publications = save_searchable_content pub (join tokens) (publications db),
                entries = kept @ new_entries\<rparr>))"

section \<open>Search engine (apps/search/services/search.py)\<close>

definition min_score_threshold :: real where
  "min_score_threshold = 1 / 100"

definition max_results :: int where
  "max_results = 500"

text \<open>A returned \<open>Publication\<close> object with the \<open>relevance_score\<close> attribute set on it.\<close>

record search_hit =
  hit :: publication
  relevance_score :: real

definition round4 :: "real \<Rightarrow> real" where
  \<comment> \<open>\<open>round(score, 4)\<close>: to four decimals, a tie to the even neighbour\<close>
  "round4 x =
     (let y = x * 10000; f = \<lfloor>y\<rfloor>; d = y - of_int f
      in of_int (if d < 1 / 2 then f else if 1 / 2 < d then f + 1
                 else if even f then f else f + 1) / 10000)"

definition publication_of :: "database \<Rightarrow> index_entry \<Rightarrow> publication option" where
  "publication_of db e = find (\<lambda>p. pub_id p = publication_id e) (publications db)"

definition matching_entries :: "database \<Rightarrow> string list \<Rightarrow> (index_entry \<times> publication) list" where
  \<comment> \<open>\<open>InvertedIndexEntry.objects.filter(term__in=query_tokens).select_related('publication')\<close>:
      each matching posting joined with its publication row, in the order in which the
      database returns the index rows (the query asks for none)\<close>
  "matching_entries db query_tokens =
     concat (map (\<lambda>e.
        if entry_term e \<in> set query_tokens
        then (case publication_of db e of Some p \<Rightarrow> [(e, p)] | None \<Rightarrow> [])
        else []) (entries db))"

fun add_score :: "int \<Rightarrow> real \<Rightarrow> (int \<times> real) list \<Rightarrow> (int \<times> real) list" where
  \<comment> \<open>\<open>doc_scores[k] += s\<close> on a \<open>defaultdict(float)\<close>\<close>
  "add_score k s [] = [(k, 0 + s)]"
| "add_score k s ((k', v) # d) = (if k = k' then (k', v + s) # d else (k', v) # add_score k s d)"

fun score_entries :: "(index_entry \<times> publication) list
    \<Rightarrow> (int \<times> real) list \<times> (int \<times> publication) list
    \<Rightarrow> (int \<times> real) list \<times> (int \<times> publication) list" where
  \<comment> \<open>the loop over \<open>matching_entries\<close>, on \<open>(doc_scores, doc_objects)\<close>\<close>
  "score_entries [] s = s"
| "score_entries ((entry, pub) # rows) (doc_scores, doc_objects) =
     score_entries rows
       (add_score (publication_id entry) (tfidf_score entry) doc_scores,
        dict_set (publication_id entry) pub doc_objects)"

definition slice_to :: "int \<Rightarrow> 'a list \<Rightarrow> 'a list" where
  \<comment> \<open>\<open>xs[:k]\<close>; a negative \<open>k\<close> counts from the end\<close>
  "slice_to k xs = (if 0 \<le> k then take (nat k) xs else take (nat (int (length xs) + k)) xs)"

definition sorted_docs :: "(int \<times> real) list \<Rightarrow> int \<Rightarrow> (int \<times> real) list" where
  \<comment> \<open>\<open>sorted(filtered_docs.items(), key=lambda x: x[1], reverse=True)[:min(top_n, self.max_results)]\<close>;
      the sort is stable\<close>
  "sorted_docs filtered_docs top_n =
     slice_to (min top_n max_results) (sort_key (\<lambda>(doc_id, score). - score) filtered_docs)"

fun build_results :: "(int \<times> publication) list \<Rightarrow> (int \<times> real) list \<Rightarrow> error + search_hit list" where
  \<comment> \<open>the loop that fills \<open>results\<close>; \<open>doc_objects[doc_id]\<close> raises on a missing key\<close>
  "build_results doc_objects [] = Inr []"
| "build_results doc_objects ((doc_id, score) # rest) =
     (case map_of doc_objects doc_id of
        None \<Rightarrow> Inl KeyError
      | Some pub \<Rightarrow>
          (case build_results doc_objects rest of
             Inl e \<Rightarrow> Inl e
           | Inr results \<Rightarrow> Inr (\<lparr>hit = pub, relevance_score = round4 score\<rparr> # results)))"

definition filter_docs :: "(int \<times> real) list \<Rightarrow> (int \<times> real) list" where
  \<comment> \<open>\<open>filtered_docs\<close>\<close>
  "filter_docs doc_scores = filter (\<lambda>(doc_id, score). score \<ge> min_score_threshold) doc_scores"

definition search :: "nltk \<Rightarrow> database \<Rightarrow> string \<Rightarrow> int \<Rightarrow> error + search_hit list" where
  "search env db query top_n =
     (if query = [] \<or> strip query = [] then Inr []
      else
        let query_tokens = preprocess env query in
        if query_tokens = [] then Inr []
        else
          let rows = matching_entries db query_tokens in
          if rows = [] then Inr []
          else
            let (doc_scores, doc_objects) = score_entries rows ([], []);
                filtered_docs = filter_docs doc_scores
            in if filtered_docs = [] then Inr []
               else build_results doc_objects (sorted_docs filtered_docs top_n))"

subsection \<open>SearchCache\<close>

text \<open>
  \<open>functools.lru_cache(maxsize=100)\<close> around \<open>get_cached_search\<close>: the cached calls, the
  most recently used first, for one \<open>SearchCache\<close> object. A call that raises caches nothing.
\<close>

type_synonym search_cache = "((string \<times> int) \<times> int list) list"

definition cache_maxsize :: nat where
  "cache_maxsize = 100"

definition get_cached_search :: "nltk \<Rightarrow> search_cache \<Rightarrow> database \<Rightarrow> string \<Rightarrow> int
    \<Rightarrow> (error + int list) \<times> search_cache" where
  "get_cached_search env cache db query top_n =
     (case map_of cache (query, top_n) of
        Some ids \<Rightarrow> (Inr ids, ((query, top_n), ids) # filter (\<lambda>(k, v). k \<noteq> (query, top_n)) cache)
      | None \<Rightarrow>
          (case search env db query top_n of
             Inl e \<Rightarrow> (Inl e, cache)
           | Inr results \<Rightarrow>
               let ids = map (\<lambda>r. pub_id (hit r)) results
               in (Inr ids, take cache_maxsize (((query, top_n), ids) # cache))))"

definition clear_cache :: "search_cache \<Rightarrow> search_cache" where
  "clear_cache cache = []"

section \<open>An instance of the library parameters\<close>

text \<open>
  Used to run the model on concrete texts: the tokenizer data is unavailable, so the
  source's \<open>text.split()\<close> fallback tokenizes; the stopword list is a part of NLTK's English
  list; the stemmer leaves words of up to two letters alone, as NLTK's does, and then
  applies the first step of Porter's algorithm (1a, the plural endings) only.
\<close>

definition ends_with :: "string \<Rightarrow> string \<Rightarrow> bool" where
  "ends_with suffix w = (length suffix \<le> length w \<and> drop (length w - length suffix) w = suffix)"

definition chop :: "nat \<Rightarrow> string \<Rightarrow> string" where
  "chop n w = take (length w - n) w"

definition step1a :: "string \<Rightarrow> string" where
  "step1a w =
     (if length w \<le> 2 then w
      else if ends_with ''sses'' w then chop 2 w
      else if ends_with ''ies'' w then (if length w = 4 then chop 1 w else chop 2 w)
      else if ends_with ''ss'' w then w
      else if ends_with ''s'' w then chop 1 w
      else w)"

definition plain_env :: nltk where
  "plain_env =
     \<lparr>word_tokenize = (\<lambda>text. None),
      stop_words = set [''a'', ''an'', ''and'', ''are'', ''as'', ''at'', ''be'', ''by'', ''for'',
        ''from'', ''in'', ''is'', ''it'', ''of'', ''on'', ''or'', ''over'', ''the'', ''to'',
        ''with''],
      stem = step1a\<rparr>"

section \<open>Concrete corpora\<close>

definition repeated_corpus :: database where
  \<comment> \<open>one publication whose title and abstract both hold the word python\<close>
  "repeated_corpus =
     \<lparr>publications =
        [\<lparr>pub_id = 1, title = ''Python'', abstract = ''python'', searchable_content = ''''\<rparr>],
      entries = []\<rparr>"

definition two_docs :: database where
  "two_docs =
     \<lparr>publications =
        [\<lparr>pub_id = 2, title = ''beta'', abstract = '''', searchable_content = ''''\<rparr>,
         \<lparr>pub_id = 1, title = ''alpha'', abstract = '''', searchable_content = ''''\<rparr>],
      entries = []\<rparr>"

definition two_docs_index :: database where
  \<comment> \<open>\<open>two_docs\<close> after a rebuild\<close>
  "two_docs_index =
     \<lparr>publications =
        [\<lparr>pub_id = 2, title = ''beta'', abstract = '''', searchable_content = ''beta''\<rparr>,
         \<lparr>pub_id = 1, title = ''alpha'', abstract = '''', searchable_content = ''alpha''\<rparr>],
      entries =
        [\<lparr>entry_term = ''beta'', publication_id = 2, tfidf_score = ln 2, term_frequency = 1\<rparr>,
         \<lparr>entry_term = ''alpha'', publication_id = 1, tfidf_score = ln 2, term_frequency = 1\<rparr>]\<rparr>"

definition two_docs_edited :: database where
  \<comment> \<open>\<open>two_docs_index\<close> after publication 1 has been retitled\<close>
  "two_docs_edited =
     \<lparr>publications =
        [\<lparr>pub_id = 2, title = ''beta'', abstract = '''', searchable_content = ''beta''\<rparr>,
         \<lparr>pub_id = 1, title = ''gamma'', abstract = '''', searchable_content = ''alpha''\<rparr>],
      entries = entries two_docs_index\<rparr>"


definition ranked_index :: database where
  \<comment> \<open>\<open>two_docs_index\<close> after \<open>update_index\<close> for publication 1 with the abstract
      "beta alpha"\<close>
  "ranked_index =
     \<lparr>publications =
        [\<lparr>pub_id = 2, title = ''beta'', abstract = '''', searchable_content = ''beta''\<rparr>,
         \<lparr>pub_id = 1, title = ''alpha'', abstract = '''',
           searchable_content = ''alpha beta alpha''\<rparr>],
      entries =
        [\<lparr>entry_term = ''beta'', publication_id = 2, tfidf_score = ln 2, term_frequency = 1\<rparr>,
         \<lparr>entry_term = ''alpha'', publication_id = 1, tfidf_score = 2 * ln 2, term_frequency = 2\<rparr>,
         \<lparr>entry_term = ''beta'', publication_id = 1, tfidf_score = 0, term_frequency = 1\<rparr>]\<rparr>"

definition plural_corpus :: database where
  "plural_corpus =
     \<lparr>publications =
        [\<lparr>pub_id = 1, title = ''Ins'', abstract = '''', searchable_content = ''''\<rparr>],
      entries = []\<rparr>"

definition alpha_again :: publication where
  \<comment> \<open>publication 1 of \<open>two_docs\<close> with a new abstract\<close>
  "alpha_again =
     \<lparr>pub_id = 1, title = ''alpha'', abstract = ''beta alpha'', searchable_content = ''alpha''\<rparr>"

definition scenario_a_by_term :: database where
  \<comment> \<open>the index of Scenario A with its rows in the order of the unique key
      (term, publication)\<close>
  "scenario_a_by_term =
     \<lparr>publications =
        [\<lparr>pub_id = 3, title = ''python programming code software'', abstract = '''',
           searchable_content = ''python programming code software''\<rparr>,
         \<lparr>pub_id = 2, title = ''python snake reptile'', abstract = '''',
           searchable_content = ''python snake reptile''\<rparr>,
         \<lparr>pub_id = 1, title = ''python programming language'', abstract = '''',
           searchable_content = ''python programming language''\<rparr>],
      entries =
        [\<lparr>entry_term = ''code'', publication_id = 3, tfidf_score = ln 3, term_frequency = 1\<rparr>,
         \<lparr>entry_term = ''language'', publication_id = 1, tfidf_score = ln 3, term_frequency = 1\<rparr>,
         \<lparr>entry_term = ''programming'', publication_id = 1, tfidf_score = ln (3 / 2),
           term_frequency = 1\<rparr>,
         \<lparr>entry_term = ''programming'', publication_id = 3, tfidf_score = ln (3 / 2),
           term_frequency = 1\<rparr>,
         \<lparr>entry_term = ''python'', publication_id = 1, tfidf_score = 0, term_frequency = 1\<rparr>,
         \<lparr>entry_term = ''python'', publication_id = 2, tfidf_score = 0, term_frequency = 1\<rparr>,
         \<lparr>entry_term = ''python'', publication_id = 3, tfidf_score = 0, term_frequency = 1\<rparr>,
         \<lparr>entry_term = ''reptile'', publication_id = 2, tfidf_score = ln 3, term_frequency = 1\<rparr>,
         \<lparr>entry_term = ''snake'', publication_id = 2, tfidf_score = ln 3, term_frequency = 1\<rparr>,
         \<lparr>entry_term = ''software'', publication_id = 3, tfidf_score = ln 3,
           term_frequency = 1\<rparr>]\<rparr>"

definition result_ids :: "error + search_hit list \<Rightarrow> int list" where
  \<comment> \<open>the identifiers of the publications a search returned, none for an error\<close>
  "result_ids r = (case r of Inl e \<Rightarrow> [] | Inr hits \<Rightarrow> map (\<lambda>h. pub_id (hit h)) hits)"

definition scenario_a :: database where
  \<comment> \<open>Scenario A of the specification, the rows newest first\<close>
  "scenario_a =
     \<lparr>publications =
        [\<lparr>pub_id = 3, title = ''python programming code software'', abstract = '''',
           searchable_content = ''''\<rparr>,
         \<lparr>pub_id = 2, title = ''python snake reptile'', abstract = '''', searchable_content = ''''\<rparr>,
         \<lparr>pub_id = 1, title = ''python programming language'', abstract = '''',
           searchable_content = ''''\<rparr>],
      entries = []\<rparr>"

section \<open>The aggregate score of a document\<close>

text \<open>
  The specification's words, for comparison with what \<open>search\<close> accumulates: the score of a
  document for a query is the sum of the TF-IDF weights of its postings whose term is one
  of the query's tokens.
\<close>

definition aggregate_score :: "database \<Rightarrow> string list \<Rightarrow> int \<Rightarrow> real" where
  "aggregate_score db query_tokens doc_id =
     sum_list (map tfidf_score
       (filter (\<lambda>e. entry_term e \<in> set query_tokens \<and> publication_id e = doc_id) (entries db)))"

text \<open>What the search loop has accumulated: \<open>doc_scores[k]\<close> as read back, and the sum of
  the weights of the joined rows of a document.\<close>

definition score_of :: "(int \<times> real) list \<Rightarrow> int \<Rightarrow> real" where
  "score_of d k = (case map_of d k of Some v \<Rightarrow> v | None \<Rightarrow> 0)"

definition rows_score :: "(index_entry \<times> publication) list \<Rightarrow> int \<Rightarrow> real" where
  "rows_score rows k = sum_list (map (\<lambda>r. tfidf_score (fst r))
      (filter (\<lambda>r. publication_id (fst r) = k) rows))"

section \<open>The preprocessor on the concrete texts\<close>

lemma pp_python_python: "preprocess plain_env ''Python python'' = [''python'', ''python'']"
  by code_simp

lemma pp_alpha: "preprocess plain_env ''alpha '' = [''alpha'']"
  by code_simp

lemma pp_beta: "preprocess plain_env ''beta '' = [''beta'']"
  by code_simp

lemmas build_defs =
  build_index_def new_builder_def content_def make_entries_def idf_def count_of_def

section \<open>Full rebuild\<close>

text \<open>
  Claim C1. The claim: after \<open>build_index\<close> the document-frequency count of a term is the
  number of documents that contain it, the counter being incremented once per document.
  The code increments \<open>self.term_doc_freq[token]\<close> inside the loop over the tokens, once
  per occurrence: for the corpus of one publication with title "Python" and abstract
  "python" the count stored for the term python is 2, while one document contains it.
\<close>

theorem build_index_counts_occurrences:
  "term_doc_freq (fst (snd (build_index plain_env new_builder repeated_corpus))) = [(''python'', 2)]
   \<and> length (filter (\<lambda>p. ''python'' \<in> set (preprocess plain_env (content p)))
         (publications repeated_corpus)) = 1"
  by (simp add: build_defs repeated_corpus_def pp_python_python)

text \<open>
  Claim C2. The claim: every TF-IDF score the builder computes is non-negative, because
  the document frequency never exceeds the corpus size. On the same one-publication corpus
  the document frequency is 2 and the corpus size 1, and the only posting gets the score
  \<open>2 * ln (1 / 2)\<close>, which is negative.
\<close>

theorem build_index_negative_score:
  "map tfidf_score (entries (snd (snd (build_index plain_env new_builder repeated_corpus))))
     = [2 * ln (1 / 2)]
   \<and> 2 * ln (1 / 2) < (0 :: real)"
  by (simp add: build_defs repeated_corpus_def pp_python_python)

text \<open>
  Claim C6. The claim: a second rebuild over an unchanged corpus gives the same postings
  as the first. \<open>build_index\<close> never resets \<open>self.term_doc_freq\<close>, so a second call on the
  same \<open>IndexBuilder\<close> adds to the counts of the first: on a corpus of two publications,
  "alpha" and "beta", the first rebuild scores both postings \<open>ln 2\<close> and the second scores
  them 0.
\<close>

theorem rebuild_same_builder_differs:
  "(let (r1, self1, db1) = build_index plain_env new_builder two_docs;
        (r2, self2, db2) = build_index plain_env self1 db1
    in map tfidf_score (entries db1) = [ln 2, ln 2]
       \<and> map tfidf_score (entries db2) = [0, 0]
       \<and> entries db2 \<noteq> entries db1)"
  by (simp add: build_defs two_docs_def pp_alpha pp_beta)

section \<open>More of the preprocessor on concrete texts\<close>

lemma pp_of_the: "preprocess plain_env ''of the'' = []"
  by code_simp

lemma pp_gamma: "preprocess plain_env ''gamma '' = [''gamma'']"
  by code_simp

lemma pp_alpha_query: "preprocess plain_env ''alpha'' = [''alpha'']"
  by code_simp

lemma strip_alpha: "strip ''alpha'' = ''alpha''"
  by code_simp

lemma ln_2_threshold: "1 \<le> ln (2 :: real) * 100"
  using ln_le_minus_one [of "1 / 2 :: real"] by (simp add: ln_div)

lemmas search_defs =
  search_def matching_entries_def publication_of_def filter_docs_def min_score_threshold_def
  sorted_docs_def slice_to_def max_results_def

lemma build_two_docs:
  "build_index plain_env new_builder two_docs =
     (Success 2 2 2,
      \<lparr>documents = [], term_doc_freq = [(''beta'', 1), (''alpha'', 1)], doc_term_freq = []\<rparr>,
      two_docs_index)"
  by (simp add: build_defs two_docs_def two_docs_index_def pp_alpha pp_beta)

lemma search_alpha_two_docs_index:
  "search plain_env two_docs_index ''alpha'' 10 =
     Inr [\<lparr>hit = \<lparr>pub_id = 1, title = ''alpha'', abstract = '''', searchable_content = ''alpha''\<rparr>,
           relevance_score = round4 (ln 2)\<rparr>]"
  by (simp add: search_defs strip_alpha pp_alpha_query two_docs_index_def ln_2_threshold)

section \<open>Degenerate queries\<close>

lemma matching_entries_empty:
  "(\<forall>e\<in>set (entries db). entry_term e \<notin> set toks \<or> publication_of db e = None)
   \<Longrightarrow> matching_entries db toks = []"
  by (auto simp: matching_entries_def split: option.splits)

text \<open>
  Claim C9. A search whose query is empty, blank, or normalizes to zero tokens returns the
  empty sequence, and so does a query none of whose terms has a posting in the index; the
  result is a value (\<open>Inr\<close>), not an error, whatever the corpus.
\<close>

theorem search_degenerate_query_empty:
  "query = [] \<or> strip query = [] \<or> preprocess env query = []
     \<or> (\<forall>e\<in>set (entries db). entry_term e \<notin> set (preprocess env query))
   \<Longrightarrow> search env db query top_n = Inr []"
  by (auto simp: search_def Let_def matching_entries_empty)

theorem search_degenerate_query_empty_witness:
  "preprocess plain_env ''of the'' = [] \<and> search plain_env two_docs_index ''of the'' 10 = Inr []"
  using pp_of_the search_degenerate_query_empty [of "''of the''" plain_env two_docs_index 10]
  by simp

section \<open>Empty corpus\<close>



section \<open>The query cache\<close>

text \<open>
  Claim C4, as amended. Once a call for a (query, result-count) pair has returned, the next
  call for the same pair returns the same identifiers, whatever the database holds by then:
  a rebuild in between does not invalidate the cached answer. The answer is computed from
  the current index again only after \<open>clear_cache\<close>: the call then returns the identifiers
  of what \<open>search\<close> finds.
\<close>

theorem cached_search_repeats:
  "get_cached_search env cache db query top_n = (Inr ids, cache') \<Longrightarrow>
     fst (get_cached_search env cache' db' query top_n) = Inr ids
   \<and> fst (get_cached_search env (clear_cache cache') db' query top_n)
        = (case search env db' query top_n of
             Inl e \<Rightarrow> Inl e
           | Inr results \<Rightarrow> Inr (map (\<lambda>r. pub_id (hit r)) results))"
proof -
  assume first: "get_cached_search env cache db query top_n = (Inr ids, cache')"
  then have "map_of cache' (query, top_n) = Some ids"
    by (auto simp: get_cached_search_def Let_def cache_maxsize_def
        split: option.splits sum.splits)
  then have "fst (get_cached_search env cache' db' query top_n) = Inr ids"
    by (simp add: get_cached_search_def)
  moreover have "fst (get_cached_search env (clear_cache cache') db' query top_n)
        = (case search env db' query top_n of
             Inl e \<Rightarrow> Inl e
           | Inr results \<Rightarrow> Inr (map (\<lambda>r. pub_id (hit r)) results))"
    by (simp add: get_cached_search_def clear_cache_def Let_def split: sum.splits)
  ultimately show ?thesis by simp
qed

lemma build_two_docs_edited:
  "snd (snd (build_index plain_env new_builder two_docs_edited)) =
     \<lparr>publications =
        [\<lparr>pub_id = 2, title = ''beta'', abstract = '''', searchable_content = ''beta''\<rparr>,
         \<lparr>pub_id = 1, title = ''gamma'', abstract = '''', searchable_content = ''gamma''\<rparr>],
      entries =
        [\<lparr>entry_term = ''beta'', publication_id = 2, tfidf_score = ln 2, term_frequency = 1\<rparr>,
         \<lparr>entry_term = ''gamma'', publication_id = 1, tfidf_score = ln 2, term_frequency = 1\<rparr>]\<rparr>"
  by (simp add: build_defs two_docs_edited_def pp_gamma pp_beta)

lemma search_alpha_after_edit:
  "search plain_env (snd (snd (build_index plain_env new_builder two_docs_edited))) ''alpha'' 10
     = Inr []"
  by (simp add: build_two_docs_edited search_defs strip_alpha pp_alpha_query)

lemma first_cached_search:
  "get_cached_search plain_env [] two_docs_index ''alpha'' 10
     = (Inr [1], [((''alpha'', 10), [1])])"
  by (simp add: get_cached_search_def search_alpha_two_docs_index cache_maxsize_def Let_def)

theorem cached_search_repeats_witness:
  "get_cached_search plain_env [] two_docs_index ''alpha'' 10
     = (Inr [1], [((''alpha'', 10), [1])])
   \<and> fst (get_cached_search plain_env [((''alpha'', 10), [1])] two_docs_index ''alpha'' 10)
       = Inr [1]
   \<and> fst (get_cached_search plain_env (clear_cache [((''alpha'', 10), [1])])
        (snd (snd (build_index plain_env new_builder two_docs_edited))) ''alpha'' 10) = Inr []"
  using first_cached_search
    cached_search_repeats [OF first_cached_search, of two_docs_index]
    cached_search_repeats [OF first_cached_search,
      of "snd (snd (build_index plain_env new_builder two_docs_edited))"]
  by (simp add: search_alpha_after_edit)

text \<open>
  The claim as written says that after a rebuild the cached query reflects the rebuilt
  index. The index of \<open>two_docs\<close> answers the query alpha with publication 1, and the cache
  keeps that answer; after publication 1 is retitled gamma and the index rebuilt, a search
  finds nothing, yet the cached call still returns publication 1.
\<close>

theorem cached_search_stale_after_rebuild:
  "snd (snd (build_index plain_env new_builder two_docs)) = two_docs_index
   \<and> get_cached_search plain_env [] two_docs_index ''alpha'' 10
       = (Inr [1], [((''alpha'', 10), [1])])
   \<and> search plain_env (snd (snd (build_index plain_env new_builder two_docs_edited))) ''alpha'' 10
       = Inr []
   \<and> fst (get_cached_search plain_env [((''alpha'', 10), [1])]
        (snd (snd (build_index plain_env new_builder two_docs_edited))) ''alpha'' 10) = Inr [1]"
proof -
  have "fst (get_cached_search plain_env [((''alpha'', 10), [1])]
        (snd (snd (build_index plain_env new_builder two_docs_edited))) ''alpha'' 10) = Inr [1]"
    by (simp add: get_cached_search_def)
  then show ?thesis
    using build_two_docs first_cached_search search_alpha_after_edit by simp
qed

section \<open>Counters\<close>

lemma keys_incr: "fst ` set (incr k d) = insert k (fst ` set d)"
  by (induction k d rule: incr.induct) auto

lemma keys_fold_incr: "fst ` set (fold incr ts d) = set ts \<union> fst ` set d"
  by (induction ts arbitrary: d) (auto simp: keys_incr)

lemma distinct_incr: "distinct (map fst d) \<Longrightarrow> distinct (map fst (incr k d))"
proof (induction k d rule: incr.induct)
  case (1 k)
  then show ?case by simp
next
  case (2 k k' n d)
  then show ?case using keys_incr [of k d] by (auto simp: image_iff)
qed

lemma distinct_fold_incr: "distinct (map fst d) \<Longrightarrow> distinct (map fst (fold incr ts d))"
  by (induction ts arbitrary: d) (auto simp: distinct_incr)

lemma count_of_incr: "count_of (incr k d) t = (if t = k then count_of d t + 1 else count_of d t)"
  by (induction k d rule: incr.induct) (auto simp: count_of_def)

lemma count_of_fold_incr: "count_of (fold incr ts d) t = count_of d t + count_list ts t"
  by (induction ts arbitrary: d) (auto simp: count_of_incr)

lemma count_of_member:
  "distinct (map fst d) \<Longrightarrow> (t, n) \<in> set d \<Longrightarrow> count_of d t = n"
  by (simp add: count_of_def)

lemma term_freq_entry:
  assumes "(t, n) \<in> set (fold incr ts [])"
  shows "n = count_list ts t" and "t \<in> set ts"
proof -
  have "distinct (map fst (fold incr ts ([] :: 'a counter)))"
    by (rule distinct_fold_incr) simp
  then have "count_of (fold incr ts []) t = n" using assms by (rule count_of_member)
  moreover have "count_of (fold incr ts []) t = count_of [] t + count_list ts t"
    by (rule count_of_fold_incr)
  ultimately show "n = count_list ts t" by (simp add: count_of_def)
  show "t \<in> set ts" using assms keys_fold_incr [of ts "[]"] by force
qed

lemma count_tokens_fold:
  "count_tokens ts (tf, df) = (fold incr ts tf, fold incr ts df)"
  by (induction ts arbitrary: tf df) auto

lemma set_dict_set: "set (dict_set k v d) \<subseteq> insert (k, v) (set d)"
  by (induction k v d rule: dict_set.induct) auto

lemma map_of_dict_set: "map_of (dict_set k v d) = (map_of d)(k \<mapsto> v)"
  by (induction k v d rule: dict_set.induct) auto

section \<open>Which terms are stored\<close>

lemma filter_stem_sound:
  "t \<in> set (filter_stem env tokens) \<Longrightarrow>
     \<exists>token\<in>set tokens. t = stem env token \<and> 2 \<le> length token \<and> \<not> isdigit token
        \<and> token \<notin> stop_words env"
  by (induction tokens) (auto split: if_splits)

lemma filter_stem_all_dropped:
  "\<forall>token\<in>set tokens. length token < 2 \<or> isdigit token \<or> token \<in> stop_words env
   \<Longrightarrow> filter_stem env tokens = []"
  by (induction tokens) auto

lemma index_pubs_terms:
  assumes "index_pubs env pubs (doc_terms, df, saved) = (doc_terms', df', saved')"
    and "(pid, tf) \<in> set doc_terms'" and "t \<in> fst ` set tf"
  shows "(\<exists>tf0. (pid, tf0) \<in> set doc_terms \<and> t \<in> fst ` set tf0)
       \<or> (\<exists>p\<in>set pubs. pub_id p = pid \<and> t \<in> set (preprocess env (content p)))"
  using assms
proof (induction pubs arbitrary: doc_terms df saved)
  case Nil
  then show ?case by auto
next
  case (Cons pub pubs)
  let ?toks = "preprocess env (content pub)"
  let ?dt = "dict_set (pub_id pub) (fold incr ?toks []) doc_terms"
  from Cons.prems(1) have
    "index_pubs env pubs (?dt, fold incr ?toks df, saved @ [pub\<lparr>searchable_content := join ?toks\<rparr>])
       = (doc_terms', df', saved')"
    by (simp add: Let_def count_tokens_fold)
  from Cons.IH [OF this Cons.prems(2,3)]
  consider tf0 where "(pid, tf0) \<in> set ?dt" "t \<in> fst ` set tf0"
    | "\<exists>p\<in>set pubs. pub_id p = pid \<and> t \<in> set (preprocess env (content p))"
    by blast
  then show ?case
  proof cases
    case 1
    then have "(pid, tf0) = (pub_id pub, fold incr ?toks []) \<or> (pid, tf0) \<in> set doc_terms"
      using set_dict_set [of "pub_id pub" "fold incr ?toks []" doc_terms] by blast
    then show ?thesis
    proof
      assume "(pid, tf0) = (pub_id pub, fold incr ?toks [])"
      then have "pid = pub_id pub" "t \<in> set ?toks" using 1(2) by (auto simp: keys_fold_incr)
      then show ?thesis by auto
    next
      assume "(pid, tf0) \<in> set doc_terms"
      then show ?thesis using 1(2) by blast
    qed
  next
    case 2
    then show ?thesis by auto
  qed
qed

lemma build_index_terms:
  assumes "publications db \<noteq> []"
    and "e \<in> set (entries (snd (snd (build_index env self db))))"
  shows "\<exists>p\<in>set (publications db). publication_id e = pub_id p
            \<and> entry_term e \<in> set (preprocess env (content p))"
proof -
  obtain doc_terms df saved where
    ip: "index_pubs env (publications db) ([], term_doc_freq self, []) = (doc_terms, df, saved)"
    by (metis prod_cases3)
  with assms have "e \<in> set (make_entries (length (publications db)) df doc_terms)"
    by (simp add: build_index_def Let_def)
  then obtain pid tf t n where "(pid, tf) \<in> set doc_terms" "(t, n) \<in> set tf"
    "entry_term e = t" "publication_id e = pid"
    by (auto simp: make_entries_def)
  then show ?thesis
    using index_pubs_terms [OF ip, of pid tf t] by force
qed

lemma update_index_terms:
  assumes "e \<in> set (entries (snd (update_index env db pub)))"
    and "publication_id e = pub_id pub"
  shows "entry_term e \<in> set (preprocess env (content pub))"
  using assms keys_fold_incr [of "preprocess env (content pub)" "[]"]
  by (auto simp: update_index_def Let_def split: if_splits) force+

text \<open>
  Claim C10, as amended. The preprocessor drops a token that is shorter than two
  characters, all digits or a stopword before it stems, so every term it returns is the
  stem of a token that is at least two characters long, not all digits and not a stopword;
  the stem itself is not checked. Every term that \<open>build_index\<close> stores, and every term
  that \<open>update_index\<close> stores for the publication, is such a term of the preprocessed
  content. A query all of whose tokens are single characters, numbers or stopwords returns
  the empty result.
\<close>

theorem stored_terms_stem_kept_tokens:
  "(\<forall>t\<in>set (preprocess env text). \<exists>token. t = stem env token \<and> 2 \<le> length token
        \<and> \<not> isdigit token \<and> token \<notin> stop_words env)
   \<and> (publications db \<noteq> [] \<longrightarrow>
        (\<forall>e\<in>set (entries (snd (snd (build_index env self db)))).
           \<exists>p\<in>set (publications db). entry_term e \<in> set (preprocess env (content p))))
   \<and> (\<forall>e\<in>set (entries (snd (update_index env db pub))).
          publication_id e = pub_id pub \<longrightarrow> entry_term e \<in> set (preprocess env (content pub)))
   \<and> ((\<forall>token\<in>set (tokenize env (clean query)).
          length token < 2 \<or> isdigit token \<or> token \<in> stop_words env)
        \<longrightarrow> search env db query top_n = Inr [])"
proof (intro conjI impI ballI)
  fix t assume "t \<in> set (preprocess env text)"
  then show "\<exists>token. t = stem env token \<and> 2 \<le> length token \<and> \<not> isdigit token
     \<and> token \<notin> stop_words env"
    using filter_stem_sound [of t env "tokenize env (clean text)"]
    by (auto simp: preprocess_def split: if_splits)
next
  fix e assume "publications db \<noteq> []" "e \<in> set (entries (snd (snd (build_index env self db))))"
  then show "\<exists>p\<in>set (publications db). entry_term e \<in> set (preprocess env (content p))"
    using build_index_terms by blast
next
  fix e assume "e \<in> set (entries (snd (update_index env db pub)))" "publication_id e = pub_id pub"
  then show "entry_term e \<in> set (preprocess env (content pub))"
    by (rule update_index_terms)
next
  assume "\<forall>token\<in>set (tokenize env (clean query)).
          length token < 2 \<or> isdigit token \<or> token \<in> stop_words env"
  then have "preprocess env query = []"
    by (simp add: preprocess_def filter_stem_all_dropped)
  then show "search env db query top_n = Inr []"
    by (simp add: search_def Let_def)
qed

lemma pp_ins: "preprocess plain_env ''Ins '' = [''in'']"
  by code_simp

lemma tokens_a_12_of: "tokenize plain_env (clean ''a 12 of'') = [''a'', ''12'', ''of'']"
  by code_simp

lemma build_plural_corpus:
  "entries (snd (snd (build_index plain_env new_builder plural_corpus))) =
     [\<lparr>entry_term = ''in'', publication_id = 1, tfidf_score = 0, term_frequency = 1\<rparr>]"
  by (simp add: build_defs plural_corpus_def pp_ins)

lemma pp_alpha_beta_alpha:
  "preprocess plain_env ''alpha beta alpha'' = [''alpha'', ''beta'', ''alpha'']"
  by code_simp

lemma update_plural_corpus:
  "entries (snd (update_index plain_env plural_corpus alpha_again)) =
     [\<lparr>entry_term = ''alpha'', publication_id = 1, tfidf_score = 0, term_frequency = 2\<rparr>,
      \<lparr>entry_term = ''beta'', publication_id = 1, tfidf_score = 0, term_frequency = 1\<rparr>]"
  by (simp add: update_index_def content_def alpha_again_def plural_corpus_def
      pp_alpha_beta_alpha idf_def doc_freq_of_def)

lemma in_is_stop_word: "''in'' \<in> stop_words plain_env"
  by (simp add: plain_env_def)

theorem stored_terms_stem_kept_tokens_witness:
  "''in'' \<in> set (preprocess plain_env ''Ins '')
   \<and> (\<exists>token. ''in'' = stem plain_env token \<and> 2 \<le> length token \<and> \<not> isdigit token
         \<and> token \<notin> stop_words plain_env)
   \<and> publications plural_corpus \<noteq> []
   \<and> (\<exists>p\<in>set (publications plural_corpus). ''in'' \<in> set (preprocess plain_env (content p)))
   \<and> ''alpha'' \<in> set (preprocess plain_env (content alpha_again))
   \<and> search plain_env plural_corpus ''a 12 of'' 10 = Inr []"
proof -
  note T = stored_terms_stem_kept_tokens
    [of plain_env "''Ins ''" plural_corpus new_builder alpha_again "''a 12 of''" 10]
  have m: "''in'' \<in> set (preprocess plain_env ''Ins '')" by (simp add: pp_ins)
  have ne: "publications plural_corpus \<noteq> []" by (simp add: plural_corpus_def)
  let ?e = "\<lparr>entry_term = ''in'', publication_id = 1, tfidf_score = 0, term_frequency = 1\<rparr>"
  have e: "?e \<in> set (entries (snd (snd (build_index plain_env new_builder plural_corpus))))"
    by (simp add: build_plural_corpus)
  let ?u = "\<lparr>entry_term = ''alpha'', publication_id = 1, tfidf_score = 0 :: real,
     term_frequency = 2 :: nat\<rparr>"
  have u: "?u \<in> set (entries (snd (update_index plain_env plural_corpus alpha_again)))"
    by (simp add: update_plural_corpus)
  have uid: "publication_id ?u = pub_id alpha_again" by (simp add: alpha_again_def)
  have dropped: "\<forall>token\<in>set (tokenize plain_env (clean ''a 12 of'')).
      length token < 2 \<or> isdigit token \<or> token \<in> stop_words plain_env"
    unfolding tokens_a_12_of by (simp add: isdigit_def plain_env_def)
  from T m have 1: "\<exists>token. ''in'' = stem plain_env token \<and> 2 \<le> length token
      \<and> \<not> isdigit token \<and> token \<notin> stop_words plain_env" by blast
  from T ne e have "\<exists>p\<in>set (publications plural_corpus).
      entry_term ?e \<in> set (preprocess plain_env (content p))" by blast
  then have 2: "\<exists>p\<in>set (publications plural_corpus).
      ''in'' \<in> set (preprocess plain_env (content p))" by simp
  from T dropped have 4: "search plain_env plural_corpus ''a 12 of'' 10 = Inr []" by blast
  from T u uid have "entry_term ?u \<in> set (preprocess plain_env (content alpha_again))"
    by blast
  then have 3: "''alpha'' \<in> set (preprocess plain_env (content alpha_again))" by simp
  from m 1 ne 2 3 4 show ?thesis by blast
qed

text \<open>
  The claim as written says that no stored term is a stopword, shorter than two characters
  or all digits. The token ins is none of these, and its stem in is a stopword: for the
  corpus of one publication titled "Ins" the index holds the term in.
\<close>

theorem stored_term_is_stopword:
  "map entry_term (entries (snd (snd (build_index plain_env new_builder plural_corpus))))
     = [''in'']
   \<and> ''in'' \<in> stop_words plain_env"
  by (simp add: build_plural_corpus in_is_stop_word)

section \<open>Incremental update\<close>

lemma doc_freq_of_card:
  "doc_freq_of rows t = card (publication_id ` {e \<in> set rows. entry_term e = t}) + 1"
proof -
  have "set (map publication_id (filter (\<lambda>e. entry_term e = t) rows))
          = publication_id ` {e \<in> set rows. entry_term e = t}" by auto
  then show ?thesis
    by (simp only: doc_freq_of_def length_remdups_card_conv)
qed

text \<open>
  Claim C7. For a publication that has a row in the store, \<open>update_index\<close> keeps exactly
  the postings of the other publications (those of the publication's id are removed first)
  and adds one posting per distinct token of the re-normalized content. Each new posting
  carries the publication's id and the number of occurrences of its term; its document
  frequency is the number of distinct publications that hold a kept posting for the term,
  plus one; the corpus size in the IDF is the store's current number of publications. The
  call returns the number of postings created.
\<close>

theorem update_index_postings:
  fixes env db pub
  defines "tokens \<equiv> preprocess env (content pub)"
    and "kept \<equiv> filter (\<lambda>e. publication_id e \<noteq> pub_id pub) (entries db)"
  assumes "pub_id pub \<in> pub_id ` set (publications db)"
  shows "\<exists>new.
      update_index env db pub =
        (Inr (length new),
         \<lparr>publications = save_searchable_content pub (join tokens) (publications db),
          entries = kept @ new\<rparr>)
    \<and> length new = card (set tokens)
    \<and> distinct (map entry_term new)
    \<and> entry_term ` set new = set tokens
    \<and> (\<forall>e\<in>set new.
          publication_id e = pub_id pub
        \<and> term_frequency e = count_list tokens (entry_term e)
        \<and> tfidf_score e = real (count_list tokens (entry_term e))
            * ln (real (length (publications db))
                / real (card (publication_id ` {k \<in> set kept. entry_term k = entry_term e}) + 1)))"
proof -
  define tf where "tf = fold incr tokens ([] :: string counter)"
  define mk where "mk = (\<lambda>(t, freq).
                 \<lparr>entry_term = t, publication_id = pub_id pub,
                  tfidf_score = real freq * idf (length (publications db)) (doc_freq_of kept t),
                  term_frequency = freq\<rparr>)"
  define new where "new = map mk tf"
  have d: "distinct (map fst tf)" unfolding tf_def by (rule distinct_fold_incr) simp
  have keys: "fst ` set tf = set tokens" unfolding tf_def by (simp add: keys_fold_incr)
  have terms: "map entry_term new = map fst tf"
    by (simp add: new_def mk_def case_prod_unfold comp_def)
  have upd: "update_index env db pub =
        (Inr (length new),
         \<lparr>publications = save_searchable_content pub (join tokens) (publications db),
          entries = kept @ new\<rparr>)"
    using assms(3)
    by (simp add: update_index_def Let_def tokens_def kept_def new_def mk_def tf_def)
  have len: "length new = card (set tokens)"
  proof -
    have "length new = length (map fst tf)" by (simp add: new_def)
    also have "\<dots> = card (set (map fst tf))" using d by (rule distinct_card [symmetric])
    also have "\<dots> = card (set tokens)" using keys by simp
    finally show ?thesis .
  qed
  have dist: "distinct (map entry_term new)" using d terms by simp
  have img: "entry_term ` set new = set tokens"
  proof -
    have "entry_term ` set new = set (map entry_term new)" by simp
    also have "\<dots> = fst ` set tf" by (simp only: terms set_map)
    finally show ?thesis using keys by simp
  qed
  have each: "publication_id e = pub_id pub
        \<and> term_frequency e = count_list tokens (entry_term e)
        \<and> tfidf_score e = real (count_list tokens (entry_term e))
            * ln (real (length (publications db))
                / real (card (publication_id ` {k \<in> set kept. entry_term k = entry_term e}) + 1))"
    if "e \<in> set new" for e
  proof -
    from that obtain t n where tn: "(t, n) \<in> set tf" and e: "e = mk (t, n)"
      by (auto simp: new_def)
    have n: "n = count_list tokens t" using tn term_freq_entry(1) unfolding tf_def by fastforce
    show ?thesis
      by (simp add: e mk_def n idf_def doc_freq_of_card)
  qed
  show ?thesis
    using upd len dist img each by blast
qed

lemma update_two_docs_index:
  "entries (snd (update_index plain_env two_docs_index alpha_again)) =
     [\<lparr>entry_term = ''beta'', publication_id = 2, tfidf_score = ln 2, term_frequency = 1\<rparr>,
      \<lparr>entry_term = ''alpha'', publication_id = 1, tfidf_score = 2 * ln 2, term_frequency = 2\<rparr>,
      \<lparr>entry_term = ''beta'', publication_id = 1, tfidf_score = 0, term_frequency = 1\<rparr>]"
  by (simp add: update_index_def content_def alpha_again_def two_docs_index_def
      pp_alpha_beta_alpha idf_def doc_freq_of_def)

theorem update_index_postings_witness:
  "pub_id alpha_again \<in> pub_id ` set (publications two_docs_index)
   \<and> fst (update_index plain_env two_docs_index alpha_again) = Inr 2
   \<and> entries (snd (update_index plain_env two_docs_index alpha_again)) =
       [\<lparr>entry_term = ''beta'', publication_id = 2, tfidf_score = ln 2, term_frequency = 1\<rparr>,
        \<lparr>entry_term = ''alpha'', publication_id = 1, tfidf_score = 2 * ln 2, term_frequency = 2\<rparr>,
        \<lparr>entry_term = ''beta'', publication_id = 1, tfidf_score = 0, term_frequency = 1\<rparr>]"
proof -
  have h: "pub_id alpha_again \<in> pub_id ` set (publications two_docs_index)"
    by (simp add: alpha_again_def two_docs_index_def)
  have c: "card (set (preprocess plain_env (content alpha_again))) = 2"
    by (simp add: content_def alpha_again_def pp_alpha_beta_alpha card_insert_if)
  have "fst (update_index plain_env two_docs_index alpha_again) = Inr 2"
    using update_index_postings [OF h, of plain_env] by (clarsimp simp: c)
  with h update_two_docs_index show ?thesis by simp
qed

section \<open>Ranked search\<close>

lemma keys_add_score: "fst ` set (add_score k s d) = insert k (fst ` set d)"
  by (induction k s d rule: add_score.induct) auto

lemma distinct_add_score: "distinct (map fst d) \<Longrightarrow> distinct (map fst (add_score k s d))"
proof (induction k s d rule: add_score.induct)
  case (1 k s)
  then show ?case by simp
next
  case (2 k s k' v d)
  then show ?case using keys_add_score [of k s d] by (auto simp: image_iff)
qed

lemma score_of_add_score:
  "score_of (add_score k s d) j = (if j = k then score_of d j + s else score_of d j)"
  by (induction k s d rule: add_score.induct) (auto simp: score_of_def)

lemma score_entries_scores:
  assumes "score_entries rows (ds, dobj) = (ds', dobj')"
  shows "score_of ds' k = score_of ds k + rows_score rows k"
    and "distinct (map fst ds) \<Longrightarrow> distinct (map fst ds')"
    and "fst ` set ds' = fst ` set ds \<union> (\<lambda>r. publication_id (fst r)) ` set rows"
  using assms
proof (induction rows arbitrary: ds dobj)
  case Nil
  { case 1 then show ?case by (simp add: rows_score_def) }
  { case 2 then show ?case by simp }
  { case 3 then show ?case by simp }
next
  case (Cons r rows)
  obtain e p where r: "r = (e, p)" by (cases r)
  { case 1
    then have "score_entries rows (add_score (publication_id e) (tfidf_score e) ds,
        dict_set (publication_id e) p dobj) = (ds', dobj')" by (simp add: r)
    from Cons.IH(1) [OF this] show ?case
      by (simp add: r score_of_add_score rows_score_def) }
  { case 2
    then have "score_entries rows (add_score (publication_id e) (tfidf_score e) ds,
        dict_set (publication_id e) p dobj) = (ds', dobj')" by (simp add: r)
    from Cons.IH(2) [OF _ this] 2(1) show ?case by (simp add: distinct_add_score) }
  { case 3
    then have "score_entries rows (add_score (publication_id e) (tfidf_score e) ds,
        dict_set (publication_id e) p dobj) = (ds', dobj')" by (simp add: r)
    from Cons.IH(3) [OF this] show ?case by (auto simp: r keys_add_score) }
qed

lemma score_entries_objects:
  assumes "score_entries rows (ds, dobj) = (ds', dobj')"
    and "\<forall>r\<in>set rows. pub_id (snd r) = publication_id (fst r)"
    and "\<forall>k p. map_of dobj k = Some p \<longrightarrow> pub_id p = k"
  shows "(\<forall>k p. map_of dobj' k = Some p \<longrightarrow> pub_id p = k)
       \<and> dom (map_of dobj') = dom (map_of dobj) \<union> (\<lambda>r. publication_id (fst r)) ` set rows"
  using assms
proof (induction rows arbitrary: ds dobj)
  case Nil
  then show ?case by simp
next
  case (Cons r rows)
  obtain e p where r: "r = (e, p)" by (cases r)
  have step: "score_entries rows (add_score (publication_id e) (tfidf_score e) ds,
        dict_set (publication_id e) p dobj) = (ds', dobj')"
    using Cons.prems(1) by (simp add: r)
  have inv: "\<forall>k q. map_of (dict_set (publication_id e) p dobj) k = Some q \<longrightarrow> pub_id q = k"
    using Cons.prems(2,3) by (auto simp: r map_of_dict_set)
  have rest: "\<forall>r\<in>set rows. pub_id (snd r) = publication_id (fst r)"
    using Cons.prems(2) by simp
  from Cons.IH [OF step rest inv] show ?case
    by (auto simp: r map_of_dict_set)
qed


lemma publication_of_id: "publication_of db e = Some p \<Longrightarrow> pub_id p = publication_id e"
  by (auto simp: publication_of_def find_Some_iff)

lemma publication_of_exists:
  "q \<in> set (publications db) \<Longrightarrow> pub_id q = publication_id e \<Longrightarrow> \<exists>p. publication_of db e = Some p"
  by (cases "publication_of db e") (auto simp: publication_of_def find_None_iff)

lemma matching_entries_member:
  "(e, p) \<in> set (matching_entries db toks)
     \<longleftrightarrow> e \<in> set (entries db) \<and> entry_term e \<in> set toks \<and> publication_of db e = Some p"
  by (auto simp: matching_entries_def split: if_splits option.splits)

lemma matching_entries_row:
  "r \<in> set (matching_entries db toks) \<Longrightarrow> pub_id (snd r) = publication_id (fst r)"
  using matching_entries_member [of "fst r" "snd r" db toks] publication_of_id [of db "fst r" "snd r"]
  by simp

lemma rows_score_matching:
  assumes "q \<in> set (publications db)"
  shows "rows_score (matching_entries db toks) (pub_id q) = aggregate_score db toks (pub_id q)"
proof -
  define joined where "joined = (\<lambda>e.
        if entry_term e \<in> set toks
        then (case publication_of db e of Some p \<Rightarrow> [(e, p)] | None \<Rightarrow> [])
        else [])"
  have one: "sum_list (map (\<lambda>r. tfidf_score (fst r))
           (filter (\<lambda>r. publication_id (fst r) = pub_id q) (joined e)))
       = (if entry_term e \<in> set toks \<and> publication_id e = pub_id q then tfidf_score e else 0)"
    for e
  proof (cases "publication_of db e")
    case None
    then have "publication_id e \<noteq> pub_id q"
      using publication_of_exists [OF assms, of e] by auto
    moreover have "joined e = []" using None by (simp add: joined_def)
    ultimately show ?thesis by simp
  next
    case (Some p)
    then have "joined e = (if entry_term e \<in> set toks then [(e, p)] else [])"
      by (simp add: joined_def)
    then show ?thesis by simp
  qed
  have "sum_list (map (\<lambda>r. tfidf_score (fst r))
      (filter (\<lambda>r. publication_id (fst r) = pub_id q) (concat (map joined es))))
     = sum_list (map tfidf_score
       (filter (\<lambda>e. entry_term e \<in> set toks \<and> publication_id e = pub_id q) es))" for es
  proof (induction es)
    case Nil
    then show ?case by simp
  next
    case (Cons e es)
    then show ?case using one [of e] by simp
  qed
  moreover have "matching_entries db toks = concat (map joined (entries db))"
    by (simp add: matching_entries_def joined_def)
  ultimately show ?thesis by (simp add: rows_score_def aggregate_score_def)
qed

lemma build_results_ok:
  assumes "\<forall>x\<in>set xs. fst x \<in> dom (map_of dobj)"
    and "\<forall>k p. map_of dobj k = Some p \<longrightarrow> pub_id p = k"
  shows "\<exists>hits. build_results dobj xs = Inr hits
     \<and> map (\<lambda>h. pub_id (hit h)) hits = map fst xs
     \<and> map relevance_score hits = map (\<lambda>x. round4 (snd x)) xs"
  using assms(1)
proof (induction xs)
  case Nil
  then show ?case by simp
next
  case (Cons x xs)
  obtain d s where x: "x = (d, s)" by (cases x)
  from Cons.prems obtain p where p: "map_of dobj d = Some p" by (auto simp: x)
  then have pd: "pub_id p = d" using assms(2) by simp
  from Cons.IH Cons.prems obtain hits where
    "build_results dobj xs = Inr hits" "map (\<lambda>h. pub_id (hit h)) hits = map fst xs"
    "map relevance_score hits = map (\<lambda>x. round4 (snd x)) xs" by auto
  then show ?case by (simp add: x p pd)
qed

lemma slice_to_subset: "set (slice_to k xs) \<subseteq> set xs"
  by (auto simp: slice_to_def dest: in_set_takeD)

lemma set_sorted_docs: "set (sorted_docs fd top_n) \<subseteq> set fd"
  using slice_to_subset [of "min top_n max_results" "sort_key (\<lambda>(doc_id, score). - score) fd"]
  by (simp add: sorted_docs_def)

lemma sorted_sorted_docs: "sorted_wrt (\<ge>) (map snd (sorted_docs fd top_n))"
proof -
  let ?s = "sort_key (\<lambda>(doc_id, score). - score) fd"
  have "sorted (map (\<lambda>(doc_id, score). - score) ?s)" by (rule sorted_sort_key)
  then have "sorted_wrt (\<lambda>a b. snd a \<ge> snd b) ?s"
    by (simp add: sorted_wrt_map case_prod_unfold)
  then have "sorted_wrt (\<lambda>a b. snd a \<ge> snd b) (take n ?s)" for n
    by (rule sorted_wrt_take)
  then show ?thesis
    by (simp add: sorted_docs_def slice_to_def sorted_wrt_map)
qed

lemma length_sorted_docs:
  "0 \<le> top_n \<Longrightarrow> int (length (sorted_docs fd top_n)) \<le> min top_n max_results"
  by (auto simp: sorted_docs_def slice_to_def max_results_def)

text \<open>
  Claim C8. For every query and every result limit, a count that is not negative,
  \<open>search\<close> returns a sequence (never an error) in which every publication has an aggregate
  score of at least 0.01, the publications are in descending order of aggregate score, each
  carries that score rounded to four decimals, and the length is at most the lesser of the
  limit and 500.
\<close>

theorem search_threshold_sorted_bounded:
  assumes "0 \<le> top_n"
  shows "\<exists>hits. search env db query top_n = Inr hits
     \<and> (\<forall>h\<in>set hits.
           1 / 100 \<le> aggregate_score db (preprocess env query) (pub_id (hit h))
         \<and> relevance_score h = round4 (aggregate_score db (preprocess env query) (pub_id (hit h))))
     \<and> sorted_wrt (\<ge>) (map (\<lambda>h. aggregate_score db (preprocess env query) (pub_id (hit h))) hits)
     \<and> int (length hits) \<le> min top_n 500"
proof -
  let ?toks = "preprocess env query"
  let ?rows = "matching_entries db ?toks"
  let ?agg = "aggregate_score db ?toks"
  obtain ds dobj where se: "score_entries ?rows ([], []) = (ds, dobj)" by (cases "score_entries ?rows ([], [])")
  let ?sd = "sorted_docs (filter_docs ds) top_n"
  show ?thesis
  proof (cases "search env db query top_n = build_results dobj ?sd")
    case False
    then have "search env db query top_n = Inr []"
      by (auto simp: search_def Let_def se split: if_splits)
    then show ?thesis using assms by simp
  next
    case True
    have rows_ok: "\<forall>r\<in>set ?rows. pub_id (snd r) = publication_id (fst r)"
      using matching_entries_row by blast
    have inv: "\<forall>k p. map_of dobj k = Some p \<longrightarrow> pub_id p = k"
      and dom: "dom (map_of dobj) = (\<lambda>r. publication_id (fst r)) ` set ?rows"
      using score_entries_objects [OF se rows_ok] by auto
    have keys: "fst ` set ds = (\<lambda>r. publication_id (fst r)) ` set ?rows"
      using score_entries_scores(3) [OF se] by simp
    have dist: "distinct (map fst ds)" using score_entries_scores(2) [OF se] by simp
    have val: "s = ?agg d \<and> 1 / 100 \<le> s" if "(d, s) \<in> set ?sd" for d s
    proof -
      from that have fd: "(d, s) \<in> set (filter_docs ds)" using set_sorted_docs by blast
      then have m: "(d, s) \<in> set ds" and th: "1 / 100 \<le> s"
        by (auto simp: filter_docs_def min_score_threshold_def)
      from m dist have "map_of ds d = Some s" by simp
      then have "s = score_of ds d" by (simp add: score_of_def)
      also have "\<dots> = rows_score ?rows d"
        using score_entries_scores(1) [OF se, of d] by (simp add: score_of_def)
      finally have s: "s = rows_score ?rows d" .
      from m keys obtain r where r: "r \<in> set ?rows" "publication_id (fst r) = d" by force
      obtain e p where ep: "r = (e, p)" by (cases r)
      with r have po: "publication_of db e = Some p"
        by (simp add: matching_entries_member)
      then have "p \<in> set (publications db)"
        by (auto simp: publication_of_def find_Some_iff)
      moreover have "pub_id p = d" using publication_of_id [OF po] r ep by simp
      ultimately have "\<exists>q\<in>set (publications db). pub_id q = d" by blast
      then have "rows_score ?rows d = ?agg d" using rows_score_matching by blast
      with s th show ?thesis by simp
    qed
    have "\<forall>x\<in>set ?sd. fst x \<in> dom (map_of dobj)"
    proof
      fix x assume "x \<in> set ?sd"
      then have "x \<in> set ds" using set_sorted_docs by (fastforce simp: filter_docs_def)
      then have "fst x \<in> fst ` set ds" by simp
      then show "fst x \<in> dom (map_of dobj)" using keys dom by simp
    qed
    from build_results_ok [OF this inv] obtain hits where
      br: "build_results dobj ?sd = Inr hits"
      and ids: "map (\<lambda>h. pub_id (hit h)) hits = map fst ?sd"
      and rs: "map relevance_score hits = map (\<lambda>x. round4 (snd x)) ?sd" by blast
    have len: "length hits = length ?sd" using ids by (metis length_map)
    have snd_agg: "map snd ?sd = map (\<lambda>x. ?agg (fst x)) ?sd"
      using val by (auto simp: case_prod_unfold)
    have aggs: "map (\<lambda>h. ?agg (pub_id (hit h))) hits = map snd ?sd"
    proof -
      have "map (\<lambda>h. ?agg (pub_id (hit h))) hits = map ?agg (map (\<lambda>h. pub_id (hit h)) hits)"
        by (simp add: comp_def)
      also have "\<dots> = map (\<lambda>x. ?agg (fst x)) ?sd" by (simp add: ids comp_def)
      finally show ?thesis using snd_agg by simp
    qed
    have each: "1 / 100 \<le> ?agg (pub_id (hit h)) \<and> relevance_score h = round4 (?agg (pub_id (hit h)))"
      if "h \<in> set hits" for h
    proof -
      from that obtain i where i: "i < length hits" "hits ! i = h" by (auto simp: in_set_conv_nth)
      then have "?agg (pub_id (hit h)) = snd (?sd ! i)"
        using aggs len by (metis length_map nth_map)
      moreover have "relevance_score h = round4 (snd (?sd ! i))"
        using rs i len by (metis length_map nth_map)
      moreover have "?sd ! i \<in> set ?sd" using i len by simp
      then have "1 / 100 \<le> snd (?sd ! i)" using val by (metis prod.collapse)
      ultimately show ?thesis by simp
    qed
    have "sorted_wrt (\<ge>) (map (\<lambda>h. ?agg (pub_id (hit h))) hits)"
      using sorted_sorted_docs [of "filter_docs ds" top_n] by (simp only: aggs)
    moreover have "int (length hits) \<le> min top_n 500"
      using length_sorted_docs [OF assms, of "filter_docs ds"] len by (simp add: max_results_def)
    ultimately show ?thesis using True br each by auto
  qed
qed

lemma pp_alpha_beta_query: "preprocess plain_env ''alpha beta'' = [''alpha'', ''beta'']"
  by code_simp

lemma strip_alpha_beta: "strip ''alpha beta'' = ''alpha beta''"
  by code_simp

lemma update_gives_ranked_index:
  "snd (update_index plain_env two_docs_index alpha_again) = ranked_index"
  by (simp add: update_index_def content_def alpha_again_def two_docs_index_def ranked_index_def
      pp_alpha_beta_alpha idf_def doc_freq_of_def save_searchable_content_def)

lemma ln_2_order: "ln (2 :: real) \<le> 2 * ln 2" "0 < ln (2 :: real)"
  by simp_all

lemma search_ranked_index_10:
  "search plain_env ranked_index ''alpha beta'' 10 =
     Inr [\<lparr>hit = \<lparr>pub_id = 1, title = ''alpha'', abstract = '''',
                  searchable_content = ''alpha beta alpha''\<rparr>,
           relevance_score = round4 (2 * ln 2)\<rparr>,
          \<lparr>hit = \<lparr>pub_id = 2, title = ''beta'', abstract = '''', searchable_content = ''beta''\<rparr>,
           relevance_score = round4 (ln 2)\<rparr>]"
  using ln_2_order ln_2_threshold
  by (simp add: search_defs strip_alpha_beta pp_alpha_beta_query ranked_index_def)

lemma search_ranked_index_1:
  "search plain_env ranked_index ''alpha beta'' 1 =
     Inr [\<lparr>hit = \<lparr>pub_id = 1, title = ''alpha'', abstract = '''',
                  searchable_content = ''alpha beta alpha''\<rparr>,
           relevance_score = round4 (2 * ln 2)\<rparr>]"
  using ln_2_order ln_2_threshold
  by (simp add: search_defs strip_alpha_beta pp_alpha_beta_query ranked_index_def)

theorem search_threshold_sorted_bounded_witness:
  "(0 :: int) \<le> 1
   \<and> search plain_env ranked_index ''alpha beta'' 10 =
       Inr [\<lparr>hit = \<lparr>pub_id = 1, title = ''alpha'', abstract = '''',
                    searchable_content = ''alpha beta alpha''\<rparr>,
             relevance_score = round4 (2 * ln 2)\<rparr>,
            \<lparr>hit = \<lparr>pub_id = 2, title = ''beta'', abstract = '''', searchable_content = ''beta''\<rparr>,
             relevance_score = round4 (ln 2)\<rparr>]
   \<and> search plain_env ranked_index ''alpha beta'' 1 =
       Inr [\<lparr>hit = \<lparr>pub_id = 1, title = ''alpha'', abstract = '''',
                    searchable_content = ''alpha beta alpha''\<rparr>,
             relevance_score = round4 (2 * ln 2)\<rparr>]
   \<and> aggregate_score ranked_index (preprocess plain_env ''alpha beta'') 2
       \<le> aggregate_score ranked_index (preprocess plain_env ''alpha beta'') 1
   \<and> 1 / 100 \<le> aggregate_score ranked_index (preprocess plain_env ''alpha beta'') 2
   \<and> round4 (ln 2)
       = round4 (aggregate_score ranked_index (preprocess plain_env ''alpha beta'') 2)"
proof -
  have h1: "(0 :: int) \<le> 1" and h10: "(0 :: int) \<le> 10" by simp_all
  from search_threshold_sorted_bounded [OF h10, of plain_env ranked_index "''alpha beta''"]
    search_threshold_sorted_bounded [OF h1, of plain_env ranked_index "''alpha beta''"]
  show ?thesis by (simp add: search_ranked_index_10 search_ranked_index_1)
qed

section \<open>Scenario A\<close>

lemma clean_doc3: "clean ''python programming code software '' = ''python programming code software''"
  by code_simp

lemma clean_doc2: "clean ''python snake reptile '' = ''python snake reptile''"
  by code_simp

lemma clean_doc1: "clean ''python programming language '' = ''python programming language''"
  by code_simp

lemma clean_query: "clean ''python programming'' = ''python programming''"
  by code_simp

lemma strip_query: "strip ''python programming'' = ''python programming''"
  by code_simp

lemma not_digits:
  "\<not> isdigit ''python''" "\<not> isdigit ''programming''" "\<not> isdigit ''code''"
  "\<not> isdigit ''software''" "\<not> isdigit ''snake''" "\<not> isdigit ''reptile''"
  "\<not> isdigit ''language''"
  by (simp_all add: isdigit_def)

lemma ln_3_2_threshold: "1 \<le> ln (3 / 2 :: real) * 100"
  using ln_le_minus_one [of "2 / 3 :: real"] ln_div [of 2 "3 :: real"] ln_div [of 3 "2 :: real"]
  by simp

lemma two_element_list:
  assumes "distinct xs" "set xs = {x, y}" "x \<noteq> y"
  shows "xs = [x, y] \<or> xs = [y, x]"
proof -
  have "length xs = card (set xs)" using assms(1) by (simp add: distinct_card)
  also have "\<dots> = 2" using assms(2,3) by simp
  finally obtain u v where xs: "xs = [u, v]"
    by (cases xs; cases "tl xs") (auto simp: numeral_2_eq_2)
  with assms show ?thesis by (auto simp: doubleton_eq_iff)
qed

lemma aggregate_score_perm:
  assumes "mset (entries db) = mset (entries db')"
  shows "aggregate_score db toks d = aggregate_score db' toks d"
proof -
  let ?P = "\<lambda>e. entry_term e \<in> set toks \<and> publication_id e = d"
  have "mset (map tfidf_score (filter ?P (entries db)))
      = mset (map tfidf_score (filter ?P (entries db')))"
    using assms by simp
  then have "sum_mset (mset (map tfidf_score (filter ?P (entries db))))
      = sum_mset (mset (map tfidf_score (filter ?P (entries db'))))" by simp
  then show ?thesis by (simp only: aggregate_score_def sum_mset_sum_list)
qed

lemma doc_scores_facts:
  assumes se: "score_entries (matching_entries db toks) ([], []) = (ds, dobj)"
  shows "distinct (map fst ds)"
    and "fst ` set ds = publication_id `
          {e \<in> set (entries db). entry_term e \<in> set toks \<and> publication_of db e \<noteq> None}"
    and "(d, s) \<in> set ds \<Longrightarrow> s = aggregate_score db toks d"
    and "dom (map_of dobj) = fst ` set ds"
    and "\<forall>k p. map_of dobj k = Some p \<longrightarrow> pub_id p = k"
proof -
  let ?rows = "matching_entries db toks"
  show dist: "distinct (map fst ds)" using score_entries_scores(2) [OF se] by simp
  have keys: "fst ` set ds = (\<lambda>r. publication_id (fst r)) ` set ?rows"
    using score_entries_scores(3) [OF se] by simp
  have rows: "set ?rows = {(e, p). e \<in> set (entries db) \<and> entry_term e \<in> set toks
      \<and> publication_of db e = Some p}"
    using matching_entries_member [of _ _ db toks] by auto
  show "fst ` set ds = publication_id `
          {e \<in> set (entries db). entry_term e \<in> set toks \<and> publication_of db e \<noteq> None}"
    unfolding keys rows by force
  have rows_ok: "\<forall>r\<in>set ?rows. pub_id (snd r) = publication_id (fst r)"
    using matching_entries_row by blast
  from score_entries_objects [OF se rows_ok]
  show "dom (map_of dobj) = fst ` set ds" and "\<forall>k p. map_of dobj k = Some p \<longrightarrow> pub_id p = k"
    using keys by auto
  show "s = aggregate_score db toks d" if m: "(d, s) \<in> set ds"
  proof -
    from m dist have "map_of ds d = Some s" by simp
    then have "s = score_of ds d" by (simp add: score_of_def)
    also have "\<dots> = rows_score ?rows d"
      using score_entries_scores(1) [OF se, of d] by (simp add: score_of_def)
    finally have s: "s = rows_score ?rows d" .
    from m keys obtain r where r: "r \<in> set ?rows" "publication_id (fst r) = d" by force
    obtain e p where ep: "r = (e, p)" by (cases r)
    with r have po: "publication_of db e = Some p" by (simp add: matching_entries_member)
    then have "p \<in> set (publications db)" by (auto simp: publication_of_def find_Some_iff)
    moreover have "pub_id p = d" using publication_of_id [OF po] r ep by simp
    ultimately have "rows_score ?rows d = aggregate_score db toks d"
      using rows_score_matching by blast
    with s show ?thesis by simp
  qed
qed

lemma search_hits:
  assumes q: "query \<noteq> []" "strip query \<noteq> []"
    and toks: "preprocess env query \<noteq> []"
    and se: "score_entries (matching_entries db (preprocess env query)) ([], []) = (ds, dobj)"
    and fd: "filter_docs ds \<noteq> []"
  shows "\<exists>hits. search env db query top_n = Inr hits
     \<and> map (\<lambda>h. pub_id (hit h)) hits = map fst (sorted_docs (filter_docs ds) top_n)
     \<and> map relevance_score hits = map (\<lambda>x. round4 (snd x)) (sorted_docs (filter_docs ds) top_n)"
proof -
  let ?rows = "matching_entries db (preprocess env query)"
  let ?sd = "sorted_docs (filter_docs ds) top_n"
  have "?rows \<noteq> []"
  proof
    assume "?rows = []"
    with se have "ds = []" by simp
    with fd show False by (simp add: filter_docs_def)
  qed
  then have s: "search env db query top_n = build_results dobj ?sd"
    using q toks fd by (simp add: search_def Let_def se)
  have "\<forall>x\<in>set ?sd. fst x \<in> dom (map_of dobj)"
  proof
    fix x assume "x \<in> set ?sd"
    then have "x \<in> set ds" using set_sorted_docs by (fastforce simp: filter_docs_def)
    then show "fst x \<in> dom (map_of dobj)" using doc_scores_facts(4) [OF se] by simp
  qed
  from build_results_ok [OF this doc_scores_facts(5) [OF se]] s show ?thesis by simp
qed

text \<open>The scenario on any seven distinct terms, the index rows in any order.\<close>

lemma scenario_a_terms:
  assumes inj: "distinct [a, b, c, d, e, f, g]"
    and pp: "preprocess env ''python programming code software '' = [a, b, c, d]"
      "preprocess env ''python snake reptile '' = [a, e, f]"
      "preprocess env ''python programming language '' = [a, b, g]"
    and ppq: "preprocess env ''python programming'' = [a, b]"
    and pubs: "publications db = publications (snd (snd (build_index env new_builder scenario_a)))"
    and rows: "mset (entries db) = mset (entries (snd (snd (build_index env new_builder scenario_a))))"
  shows "\<exists>hits. search env db ''python programming'' 10 = Inr hits
       \<and> (map (\<lambda>h. pub_id (hit h)) hits = [3, 1] \<or> map (\<lambda>h. pub_id (hit h)) hits = [1, 3])
       \<and> map relevance_score hits = [round4 (ln (3 / 2)), round4 (ln (3 / 2))]"
proof -
  let ?idx = "snd (snd (build_index env new_builder scenario_a))"
  let ?l = "ln (3 / 2 :: real)"
  have "distinct (rev [a, b, c, d, e, f, g])" using inj by (simp only: distinct_rev)
  then have inj2: "distinct [g, f, e, d, c, b, a]" by (simp only: rev.simps append.simps)
  have b: "?idx =
     \<lparr>publications =
        [\<lparr>pub_id = 3, title = ''python programming code software'', abstract = '''',
           searchable_content = join [a, b, c, d]\<rparr>,
         \<lparr>pub_id = 2, title = ''python snake reptile'', abstract = '''',
           searchable_content = join [a, e, f]\<rparr>,
         \<lparr>pub_id = 1, title = ''python programming language'', abstract = '''',
           searchable_content = join [a, b, g]\<rparr>],
      entries =
        [\<lparr>entry_term = a, publication_id = 3, tfidf_score = 0, term_frequency = 1\<rparr>,
         \<lparr>entry_term = b, publication_id = 3, tfidf_score = ln (3 / 2), term_frequency = 1\<rparr>,
         \<lparr>entry_term = c, publication_id = 3, tfidf_score = ln 3, term_frequency = 1\<rparr>,
         \<lparr>entry_term = d, publication_id = 3, tfidf_score = ln 3, term_frequency = 1\<rparr>,
         \<lparr>entry_term = a, publication_id = 2, tfidf_score = 0, term_frequency = 1\<rparr>,
         \<lparr>entry_term = e, publication_id = 2, tfidf_score = ln 3, term_frequency = 1\<rparr>,
         \<lparr>entry_term = f, publication_id = 2, tfidf_score = ln 3, term_frequency = 1\<rparr>,
         \<lparr>entry_term = a, publication_id = 1, tfidf_score = 0, term_frequency = 1\<rparr>,
         \<lparr>entry_term = b, publication_id = 1, tfidf_score = ln (3 / 2), term_frequency = 1\<rparr>,
         \<lparr>entry_term = g, publication_id = 1, tfidf_score = ln 3, term_frequency = 1\<rparr>]\<rparr>"
    using inj inj2
    by (simp add: build_defs scenario_a_def pp del: join.simps)
  have po: "publication_of db x = publication_of ?idx x" for x
    by (simp add: publication_of_def pubs)
  have rows_set: "set (entries db) = set (entries ?idx)" using rows by (rule mset_eq_setD)
  have agg: "aggregate_score db [a, b] k = aggregate_score ?idx [a, b] k" for k
    using rows by (rule aggregate_score_perm)
  have agg3: "aggregate_score db [a, b] 3 = ?l"
    and agg2: "aggregate_score db [a, b] 2 = 0"
    and agg1: "aggregate_score db [a, b] 1 = ?l"
    unfolding agg b using inj inj2 by (simp_all add: aggregate_score_def)
  obtain ds dobj where se: "score_entries (matching_entries db [a, b]) ([], []) = (ds, dobj)"
    by (cases "score_entries (matching_entries db [a, b]) ([], [])")
  note facts = doc_scores_facts [OF se]
  have "{x \<in> set (entries db). entry_term x \<in> set [a, b] \<and> publication_of db x \<noteq> None}
      = set (filter (\<lambda>x. entry_term x \<in> set [a, b] \<and> publication_of ?idx x \<noteq> None)
          (entries ?idx))"
    by (auto simp: rows_set po)
  then have keys: "fst ` set ds = {3, 2, 1}"
    unfolding facts(2) b using inj inj2
    by (simp add: publication_of_def) 
  have ds: "set ds = {(3, ?l), (2, 0), (1, ?l)}"
  proof (rule set_eqI)
    fix x :: "int \<times> real"
    obtain k s where x: "x = (k, s)" by (cases x)
    show "x \<in> set ds \<longleftrightarrow> x \<in> {(3, ?l), (2, 0), (1, ?l)}"
    proof
      assume m: "x \<in> set ds"
      then have "k \<in> {3, 2, 1}" using keys x by force
      moreover have "s = aggregate_score db [a, b] k" using m x facts(3) by simp
      ultimately show "x \<in> {(3, ?l), (2, 0), (1, ?l)}"
        using agg3 agg2 agg1 x by auto
    next
      assume m: "x \<in> {(3, ?l), (2, 0), (1, ?l)}"
      then have "k \<in> fst ` set ds" using keys x by auto
      then obtain s' where m': "(k, s') \<in> set ds" by force
      then have "s' = aggregate_score db [a, b] k" by (rule facts(3))
      then have "s' = s" using m x agg3 agg2 agg1 by auto
      with m' x show "x \<in> set ds" by simp
    qed
  qed
  let ?fd = "filter_docs ds"
  let ?sd = "sorted_docs ?fd 10"
  have l: "1 / 100 \<le> ?l" using ln_3_2_threshold by simp
  have fd_set: "set ?fd = {(3, ?l), (1, ?l)}"
    using l by (auto simp: filter_docs_def ds min_score_threshold_def)
  have fd_dist: "distinct (map fst ?fd)"
    using facts(1) by (simp add: filter_docs_def distinct_map_filter)
  then have "length ?fd = card (set ?fd)" by (metis distinct_card distinct_map length_map)
  then have fd_len: "length ?fd = 2" using fd_set by simp
  have sd: "?sd = sort_key (\<lambda>(doc_id, score). - score) ?fd"
    using fd_len by (simp add: sorted_docs_def slice_to_def max_results_def)
  have sd_set: "set ?sd = {(3, ?l), (1, ?l)}" using fd_set by (simp add: sd)
  have "distinct ?fd" using fd_dist by (simp add: distinct_map)
  then have sd_dist: "distinct ?sd" by (simp add: sd)
  from two_element_list [OF sd_dist sd_set]
  have two: "?sd = [(3, ?l), (1, ?l)] \<or> ?sd = [(1, ?l), (3, ?l)]" by simp
  have ne: "?fd \<noteq> []" using fd_len by auto
  have q: "''python programming'' \<noteq> []" "strip ''python programming'' \<noteq> []"
    "preprocess env ''python programming'' \<noteq> []"
    by (simp_all add: strip_query ppq)
  from search_hits [OF q, of db ds dobj 10] se ne obtain hits where
    h: "search env db ''python programming'' 10 = Inr hits"
    "map (\<lambda>h. pub_id (hit h)) hits = map fst ?sd"
    "map relevance_score hits = map (\<lambda>x. round4 (snd x)) ?sd"
    by (auto simp: ppq)
  from two h show ?thesis by auto
qed

text \<open>
  Claim C3, as amended. For the three-document corpus of Scenario A, after a full rebuild by
  a fresh builder the query "python programming" returns exactly doc3 and doc1, both with
  the score \<open>ln (3 / 2)\<close>, and does not return doc2. The term python occurs in all three
  documents, so its weight is \<open>ln (3 / 3) = 0\<close>; doc3 and doc1 score alike on the term
  programming alone, and the score 0 of doc2 is below the threshold 0.01. doc3 and doc1 tie,
  and which of them comes first is decided by the order in which the database returns the
  index rows, which the code does not fix: the statement holds for the index rows in every
  order, and in either order of the two results. It holds for every tokenizer that splits
  the four texts into their words, every stopword list that holds none of the seven words,
  and every stemmer that keeps the seven words apart.
\<close>

theorem scenario_a_ranking:
  assumes tok:
      "tokenize env ''python programming code software''
         = [''python'', ''programming'', ''code'', ''software'']"
      "tokenize env ''python snake reptile'' = [''python'', ''snake'', ''reptile'']"
      "tokenize env ''python programming language'' = [''python'', ''programming'', ''language'']"
      "tokenize env ''python programming'' = [''python'', ''programming'']"
    and stop: "\<forall>w\<in>set [''python'', ''programming'', ''code'', ''software'', ''snake'',
        ''reptile'', ''language'']. w \<notin> stop_words env"
    and inj: "distinct (map (stem env) [''python'', ''programming'', ''code'', ''software'',
        ''snake'', ''reptile'', ''language''])"
    and pubs: "publications db = publications (snd (snd (build_index env new_builder scenario_a)))"
    and rows: "mset (entries db) = mset (entries (snd (snd (build_index env new_builder scenario_a))))"
  shows "\<exists>hits. search env db ''python programming'' 10 = Inr hits
       \<and> (map (\<lambda>h. pub_id (hit h)) hits = [3, 1] \<or> map (\<lambda>h. pub_id (hit h)) hits = [1, 3])
       \<and> map relevance_score hits = [round4 (ln (3 / 2)), round4 (ln (3 / 2))]"
proof -
  have s: "''python'' \<notin> stop_words env" "''programming'' \<notin> stop_words env"
    "''code'' \<notin> stop_words env" "''software'' \<notin> stop_words env"
    "''snake'' \<notin> stop_words env" "''reptile'' \<notin> stop_words env"
    "''language'' \<notin> stop_words env"
    using stop by simp_all
  have pp3: "preprocess env ''python programming code software ''
      = [stem env ''python'', stem env ''programming'', stem env ''code'', stem env ''software'']"
    by (simp add: preprocess_def clean_doc3 tok s not_digits)
  have pp2: "preprocess env ''python snake reptile ''
      = [stem env ''python'', stem env ''snake'', stem env ''reptile'']"
    by (simp add: preprocess_def clean_doc2 tok s not_digits)
  have pp1: "preprocess env ''python programming language ''
      = [stem env ''python'', stem env ''programming'', stem env ''language'']"
    by (simp add: preprocess_def clean_doc1 tok s not_digits)
  have ppq: "preprocess env ''python programming''
      = [stem env ''python'', stem env ''programming'']"
    by (simp add: preprocess_def clean_query tok s not_digits)
  have d: "distinct [stem env ''python'', stem env ''programming'', stem env ''code'',
      stem env ''software'', stem env ''snake'', stem env ''reptile'', stem env ''language'']"
    using inj by (simp only: list.map)
  show ?thesis
    by (rule scenario_a_terms [OF d pp3 pp2 pp1 ppq pubs rows])
qed

lemma plain_env_tokenize:
  "tokenize plain_env ''python programming code software''
     = [''python'', ''programming'', ''code'', ''software'']"
  "tokenize plain_env ''python snake reptile'' = [''python'', ''snake'', ''reptile'']"
  "tokenize plain_env ''python programming language'' = [''python'', ''programming'', ''language'']"
  "tokenize plain_env ''python programming'' = [''python'', ''programming'']"
  by code_simp+

lemma plain_env_stop:
  "\<forall>w\<in>set [''python'', ''programming'', ''code'', ''software'', ''snake'',
        ''reptile'', ''language'']. w \<notin> stop_words plain_env"
  by (simp add: plain_env_def)

lemma plain_env_stems:
  "map (stem plain_env) [''python'', ''programming'', ''code'', ''software'',
        ''snake'', ''reptile'', ''language'']
   = [''python'', ''programming'', ''code'', ''software'', ''snake'', ''reptile'', ''language'']"
  by code_simp

lemma plain_env_distinct:
  "distinct (map (stem plain_env) [''python'', ''programming'', ''code'', ''software'',
        ''snake'', ''reptile'', ''language''])"
  unfolding plain_env_stems by simp

lemma pp_scenario_a:
  "preprocess plain_env ''python programming code software ''
      = [''python'', ''programming'', ''code'', ''software'']"
  "preprocess plain_env ''python snake reptile '' = [''python'', ''snake'', ''reptile'']"
  "preprocess plain_env ''python programming language ''
      = [''python'', ''programming'', ''language'']"
  "preprocess plain_env ''python programming'' = [''python'', ''programming'']"
  by code_simp+

lemma build_scenario_a:
  "snd (snd (build_index plain_env new_builder scenario_a)) =
     \<lparr>publications =
        [\<lparr>pub_id = 3, title = ''python programming code software'', abstract = '''',
           searchable_content = ''python programming code software''\<rparr>,
         \<lparr>pub_id = 2, title = ''python snake reptile'', abstract = '''',
           searchable_content = ''python snake reptile''\<rparr>,
         \<lparr>pub_id = 1, title = ''python programming language'', abstract = '''',
           searchable_content = ''python programming language''\<rparr>],
      entries =
        [\<lparr>entry_term = ''python'', publication_id = 3, tfidf_score = 0, term_frequency = 1\<rparr>,
         \<lparr>entry_term = ''programming'', publication_id = 3, tfidf_score = ln (3 / 2),
           term_frequency = 1\<rparr>,
         \<lparr>entry_term = ''code'', publication_id = 3, tfidf_score = ln 3, term_frequency = 1\<rparr>,
         \<lparr>entry_term = ''software'', publication_id = 3, tfidf_score = ln 3, term_frequency = 1\<rparr>,
         \<lparr>entry_term = ''python'', publication_id = 2, tfidf_score = 0, term_frequency = 1\<rparr>,
         \<lparr>entry_term = ''snake'', publication_id = 2, tfidf_score = ln 3, term_frequency = 1\<rparr>,
         \<lparr>entry_term = ''reptile'', publication_id = 2, tfidf_score = ln 3, term_frequency = 1\<rparr>,
         \<lparr>entry_term = ''python'', publication_id = 1, tfidf_score = 0, term_frequency = 1\<rparr>,
         \<lparr>entry_term = ''programming'', publication_id = 1, tfidf_score = ln (3 / 2),
           term_frequency = 1\<rparr>,
         \<lparr>entry_term = ''language'', publication_id = 1, tfidf_score = ln 3,
           term_frequency = 1\<rparr>]\<rparr>"
  by (simp add: build_defs scenario_a_def pp_scenario_a)

lemma scenario_a_by_term_rows:
  "publications scenario_a_by_term
     = publications (snd (snd (build_index plain_env new_builder scenario_a)))"
  "mset (entries scenario_a_by_term)
     = mset (entries (snd (snd (build_index plain_env new_builder scenario_a))))"
  by (simp_all add: build_scenario_a scenario_a_by_term_def)

lemma search_scenario_a_created:
  "result_ids (search plain_env (snd (snd (build_index plain_env new_builder scenario_a)))
     ''python programming'' 10) = [3, 1]"
  unfolding build_scenario_a
  by (simp add: result_ids_def search_defs strip_query pp_scenario_a ln_3_2_threshold)

lemma search_scenario_a_by_term:
  "result_ids (search plain_env scenario_a_by_term ''python programming'' 10) = [1, 3]"
  by (simp add: result_ids_def scenario_a_by_term_def search_defs strip_query pp_scenario_a
      ln_3_2_threshold)

theorem scenario_a_ranking_witness:
  "tokenize plain_env ''python programming'' = [''python'', ''programming'']
   \<and> ''python'' \<notin> stop_words plain_env
   \<and> distinct (map (stem plain_env) [''python'', ''programming'', ''code'', ''software'',
        ''snake'', ''reptile'', ''language''])
   \<and> mset (entries scenario_a_by_term)
       = mset (entries (snd (snd (build_index plain_env new_builder scenario_a))))
   \<and> (\<exists>hits. search plain_env scenario_a_by_term ''python programming'' 10 = Inr hits
       \<and> (map (\<lambda>h. pub_id (hit h)) hits = [3, 1] \<or> map (\<lambda>h. pub_id (hit h)) hits = [1, 3])
       \<and> map relevance_score hits = [round4 (ln (3 / 2)), round4 (ln (3 / 2))])
   \<and> result_ids (search plain_env scenario_a_by_term ''python programming'' 10) = [1, 3]
   \<and> result_ids (search plain_env (snd (snd (build_index plain_env new_builder scenario_a)))
        ''python programming'' 10) = [3, 1]"
  using scenario_a_ranking [OF plain_env_tokenize plain_env_stop plain_env_distinct
      scenario_a_by_term_rows]
    plain_env_tokenize(4) plain_env_distinct plain_env_stop scenario_a_by_term_rows(2)
    search_scenario_a_by_term search_scenario_a_created
  by simp

text \<open>
  The claim as written ranks doc2 third. The search returns two publications, and doc2,
  whose aggregate score is 0, is not one of them.
\<close>

theorem scenario_a_drops_doc2:
  "length (result_ids (search plain_env (snd (snd (build_index plain_env new_builder scenario_a)))
      ''python programming'' 10)) = 2
   \<and> 2 \<notin> set (result_ids (search plain_env
        (snd (snd (build_index plain_env new_builder scenario_a))) ''python programming'' 10))
   \<and> aggregate_score (snd (snd (build_index plain_env new_builder scenario_a)))
        (preprocess plain_env ''python programming'') 2 = 0"
proof -
  have "aggregate_score (snd (snd (build_index plain_env new_builder scenario_a)))
        (preprocess plain_env ''python programming'') 2 = 0"
    unfolding build_scenario_a by (simp add: aggregate_score_def pp_scenario_a)
  then show ?thesis by (simp add: search_scenario_a_created)
qed

section \<open>What a rebuild computes\<close>

lemma index_pubs_fold:
  "index_pubs env pubs (doc_terms, df, saved) =
     (fold (\<lambda>p. dict_set (pub_id p) (fold incr (preprocess env (content p)) [])) pubs doc_terms,
      fold (\<lambda>p. fold incr (preprocess env (content p))) pubs df,
      saved @ map (\<lambda>p. p\<lparr>searchable_content := join (preprocess env (content p))\<rparr>) pubs)"
  by (induction pubs arbitrary: doc_terms df saved) (simp_all add: count_tokens_fold Let_def)

text \<open>
  The count that \<open>build_index\<close> keeps for a term is the number of its occurrences in the
  whole corpus, on top of what the builder held before.
\<close>

lemma build_index_counts:
  "count_of (fold (\<lambda>p. fold incr (preprocess env (content p))) pubs df) t
     = count_of df t + sum_list (map (\<lambda>p. count_list (preprocess env (content p)) t) pubs)"
  by (induction pubs arbitrary: df) (simp_all add: count_of_fold_incr)

lemma term_doc_freq_occurrences:
  assumes "publications db \<noteq> []"
  shows "count_of (term_doc_freq (fst (snd (build_index env self db)))) t
     = count_of (term_doc_freq self) t
       + sum_list (map (\<lambda>p. count_list (preprocess env (content p)) t) (publications db))"
  using assms by (simp add: build_index_def Let_def index_pubs_fold build_index_counts)

text \<open>
  With a builder constructed afresh for each rebuild, as every caller in the repository
  does, a second rebuild over the unchanged corpus gives the result of the first.
\<close>

lemma rebuild_fresh_builder_idempotent:
  "build_index env new_builder (snd (snd (build_index env new_builder db)))
     = build_index env new_builder db"
proof (cases "publications db = []")
  case True
  then show ?thesis by (simp add: build_index_def)
next
  case False
  let ?upd = "\<lambda>p. p\<lparr>searchable_content := join (preprocess env (content p))\<rparr>"
  let ?saved = "map ?upd (publications db)"
  have c: "content (?upd p) = content p" for p by (simp add: content_def)
  have pubs1: "publications (snd (snd (build_index env new_builder db))) = ?saved"
    using False by (simp add: build_index_def Let_def index_pubs_fold)
  have f1: "fold (\<lambda>p. dict_set (pub_id p) (fold incr (preprocess env (content p)) [])) ?saved dt
      = fold (\<lambda>p. dict_set (pub_id p) (fold incr (preprocess env (content p)) []))
          (publications db) dt" for dt
    by (simp add: fold_map comp_def c)
  have f2: "fold (\<lambda>p. fold incr (preprocess env (content p))) ?saved df
      = fold (\<lambda>p. fold incr (preprocess env (content p))) (publications db) df" for df
    by (simp add: fold_map comp_def c)
  have f3: "map ?upd ?saved = ?saved" by (simp add: comp_def c)
  show ?thesis
    using False
    by (simp add: build_index_def [of env new_builder] Let_def index_pubs_fold pubs1 f1 f2 f3
        del: map_map)
qed

text \<open>
  The incremental update does not share the defect: where every posting refers to a
  publication of the store, the document frequency it computes is at most the number of
  publications, and the scores it stores are not negative.
\<close>

lemma update_index_scores_nonneg:
  assumes pub: "pub_id pub \<in> pub_id ` set (publications db)"
    and refs: "\<forall>k\<in>set (entries db). publication_id k \<in> pub_id ` set (publications db)"
    and e: "e \<in> set (entries (snd (update_index env db pub)))" "publication_id e = pub_id pub"
  shows "0 \<le> tfidf_score e"
proof -
  let ?kept = "filter (\<lambda>k. publication_id k \<noteq> pub_id pub) (entries db)"
  let ?ids = "pub_id ` set (publications db)"
  let ?n = "length (publications db)"
  from e pub obtain t freq where
    score: "tfidf_score e = real freq * idf ?n (doc_freq_of ?kept t)"
    by (auto simp: update_index_def Let_def)
  let ?s = "publication_id ` {k \<in> set ?kept. entry_term k = t}"
  have sub: "?s \<subseteq> ?ids - {pub_id pub}" using refs by auto
  have "card ?s \<le> card (?ids - {pub_id pub})" by (rule card_mono [OF _ sub]) simp
  also have "\<dots> = card ?ids - 1" using pub by simp
  finally have "card ?s + 1 \<le> card ?ids"
    using pub card_gt_0_iff [of ?ids] by fastforce
  also have "\<dots> \<le> ?n" by (metis card_image_le card_length le_trans List.finite_set)
  finally have le: "card ?s + 1 \<le> ?n" .
  then have "1 \<le> real ?n / real (card ?s + 1)" by (simp add: le_divide_eq)
  then have "0 \<le> ln (real ?n / real (card ?s + 1))" by simp
  then show ?thesis by (simp add: score idf_def doc_freq_of_card)
qed

end
